theory Spec2Isabelle
  imports Complex_Main "HOL-Library.Word"
begin

section \<open>The memoization cache (cache.ts)\<close>

text \<open>
  \<^verbatim>\<open>ImageCache\<close> keeps a JavaScript \<^verbatim>\<open>Map<string, CacheEntry>\<close>. A \<^verbatim>\<open>Map\<close> iterates in
  insertion order, and \<^verbatim>\<open>removeOldestEntry\<close> depends on that order, so the map is an
  association list in insertion order. Every \<^verbatim>\<open>Date.now()\<close> the code reads is an
  explicit argument (milliseconds, an integer).
\<close>

record 'r CacheEntry =
  timestamp :: int
  result :: 'r

record 'r ImageCache =
  cache :: "(string \<times> 'r CacheEntry) list"
  maxSize :: int
  maxAge :: int

text \<open>The constructor, with its defaults \<^verbatim>\<open>maxSize = 100, maxAge = 3600000\<close>.\<close>

definition new_ImageCache :: "int \<Rightarrow> int \<Rightarrow> 'r ImageCache" where
  "new_ImageCache ms ma = \<lparr>cache = [], maxSize = ms, maxAge = ma\<rparr>"

definition default_ImageCache :: "'r ImageCache" where
  "default_ImageCache = new_ImageCache 100 3600000"

text \<open>\<^verbatim>\<open>Map.prototype.set\<close>: an existing key keeps its place, a new key goes last.\<close>

fun Map_set :: "'k \<Rightarrow> 'v \<Rightarrow> ('k \<times> 'v) list \<Rightarrow> ('k \<times> 'v) list" where
  "Map_set k v [] = [(k, v)]"
| "Map_set k v ((k', v') # m) = (if k' = k then (k, v) # m else (k', v') # Map_set k v m)"

text \<open>\<^verbatim>\<open>Map.prototype.delete\<close>.\<close>

fun Map_delete :: "'k \<Rightarrow> ('k \<times> 'v) list \<Rightarrow> ('k \<times> 'v) list" where
  "Map_delete k [] = []"
| "Map_delete k ((k', v') # m) = (if k' = k then Map_delete k m else (k', v') # Map_delete k m)"

text \<open>\<^verbatim>\<open>Map.prototype.get\<close>.\<close>

fun Map_get :: "('k \<times> 'v) list \<Rightarrow> 'k \<Rightarrow> 'v option" where
  "Map_get [] k = None"
| "Map_get ((k', v') # m) k = (if k' = k then Some v' else Map_get m k)"

text \<open>
  The loop of \<^verbatim>\<open>removeOldestEntry\<close>: the accumulator is \<^verbatim>\<open>(oldestKey, oldestTime)\<close>,
  \<^verbatim>\<open>oldestKey\<close> being \<^verbatim>\<open>undefined\<close> (\<open>None\<close>) until an entry is strictly older than
  \<^verbatim>\<open>oldestTime\<close>.
\<close>

fun oldest_scan :: "(string \<times> 'r CacheEntry) list \<Rightarrow> string option \<times> int \<Rightarrow> string option \<times> int" where
  "oldest_scan [] acc = acc"
| "oldest_scan ((key, entry) # es) (oldestKey, oldestTime) =
     (if timestamp entry < oldestTime
      then oldest_scan es (Some key, timestamp entry)
      else oldest_scan es (oldestKey, oldestTime))"

text \<open>
  \<^verbatim>\<open>removeOldestEntry\<close>: \<^verbatim>\<open>oldestTime\<close> starts at \<^verbatim>\<open>Date.now()\<close>; the final
  \<^verbatim>\<open>if (oldestKey)\<close> is a truthiness test, false for \<^verbatim>\<open>undefined\<close> and for the empty
  string.
\<close>

definition ImageCache_removeOldestEntry :: "int \<Rightarrow> 'r ImageCache \<Rightarrow> 'r ImageCache" where
  "ImageCache_removeOldestEntry now c =
     (case fst (oldest_scan (cache c) (None, now)) of
        None \<Rightarrow> c
      | Some oldestKey \<Rightarrow>
          if oldestKey \<noteq> [] then c\<lparr>cache := Map_delete oldestKey (cache c)\<rparr> else c)"

text \<open>
  \<^verbatim>\<open>set(key, value)\<close>. \<open>now_scan\<close> is the clock read inside \<^verbatim>\<open>removeOldestEntry\<close>,
  \<open>now\<close> the one that stamps the new entry.
\<close>

definition ImageCache_set :: "int \<Rightarrow> int \<Rightarrow> string \<Rightarrow> 'r \<Rightarrow> 'r ImageCache \<Rightarrow> 'r ImageCache" where
  "ImageCache_set now_scan now key v c =
     (let c1 = (if int (length (cache c)) \<ge> maxSize c
                then ImageCache_removeOldestEntry now_scan c else c)
      in c1\<lparr>cache := Map_set key \<lparr>timestamp = now, result = v\<rparr> (cache c1)\<rparr>)"

text \<open>\<^verbatim>\<open>get(key)\<close> returns the result (\<open>None\<close> for \<^verbatim>\<open>undefined\<close>) and the cache it leaves.\<close>

definition ImageCache_get :: "int \<Rightarrow> string \<Rightarrow> 'r ImageCache \<Rightarrow> 'r option \<times> 'r ImageCache" where
  "ImageCache_get now key c =
     (case Map_get (cache c) key of
        None \<Rightarrow> (None, c)
      | Some entry \<Rightarrow>
          if now - timestamp entry > maxAge c
          then (None, c\<lparr>cache := Map_delete key (cache c)\<rparr>)
          else (Some (result entry), c))"

definition ImageCache_clear :: "'r ImageCache \<Rightarrow> 'r ImageCache" where
  "ImageCache_clear c = c\<lparr>cache := []\<rparr>"

section \<open>Image statistics (ImageProcessor.ts, processors/analyze.ts)\<close>

text \<open>
  The metadata object the engine returns for \<^verbatim>\<open>sharp(input).metadata()\<close>: every field
  may be missing (\<open>None\<close> for \<^verbatim>\<open>undefined\<close>). Sizes are integers; the quotient
  \<^verbatim>\<open>aspectRatio\<close> is an exact rational here.
\<close>

record Metadata =
  size_md :: "int option"
  format_md :: "string option"
  width_md :: "int option"
  height_md :: "int option"
  hasAlpha_md :: "bool option"
  space_md :: "string option"
  channels_md :: "int option"
  compression_md :: "string option"

record ImageStats =
  size_st :: int
  format_st :: string
  width_st :: int
  height_st :: int
  aspectRatio :: rat
  hasAlpha_st :: bool
  colorSpace :: string
  channels_st :: int
  compression_st :: "string option"

text \<open>
  JavaScript's \<^verbatim>\<open>a || d\<close> on an optional number, string and boolean: \<^verbatim>\<open>d\<close> when \<^verbatim>\<open>a\<close> is
  \<^verbatim>\<open>undefined\<close>, \<^verbatim>\<open>0\<close>, the empty string or \<^verbatim>\<open>false\<close>.
\<close>

definition num_or :: "int option \<Rightarrow> int \<Rightarrow> int" where
  "num_or a d = (case a of None \<Rightarrow> d | Some n \<Rightarrow> if n = 0 then d else n)"

definition str_or :: "string option \<Rightarrow> string \<Rightarrow> string" where
  "str_or a d = (case a of None \<Rightarrow> d | Some s \<Rightarrow> if s = [] then d else s)"

definition bool_or :: "bool option \<Rightarrow> bool \<Rightarrow> bool" where
  "bool_or a d = (case a of None \<Rightarrow> d | Some b \<Rightarrow> if b then b else d)"

text \<open>The object literal that \<^verbatim>\<open>getStats\<close> returns, in both files.\<close>

definition getStats :: "Metadata \<Rightarrow> ImageStats" where
  "getStats metadata =
     \<lparr>size_st = num_or (size_md metadata) 0,
      format_st = str_or (format_md metadata) ''unknown'',
      width_st = num_or (width_md metadata) 0,
      height_st = num_or (height_md metadata) 0,
      aspectRatio = of_int (num_or (width_md metadata) 0) / of_int (num_or (height_md metadata) 1),
      hasAlpha_st = bool_or (hasAlpha_md metadata) False,
      colorSpace = str_or (space_md metadata) ''unknown'',
      channels_st = num_or (channels_md metadata) 0,
      compression_st = compression_md metadata\<rparr>"

text \<open>The divisor of \<^verbatim>\<open>aspectRatio\<close>.\<close>

definition aspect_divisor :: "Metadata \<Rightarrow> int" where
  "aspect_divisor metadata = num_or (height_md metadata) 1"

definition no_metadata :: Metadata where
  "no_metadata = \<lparr>size_md = None, format_md = None, width_md = None, height_md = None,
     hasAlpha_md = None, space_md = None, channels_md = None, compression_md = None\<rparr>"

section \<open>Placing the watermark text\<close>

datatype WatermarkPosition = TopLeft | TopRight | BottomLeft | BottomRight | Center

fun position_string :: "WatermarkPosition \<Rightarrow> string" where
  "position_string TopLeft = ''top-left''"
| "position_string TopRight = ''top-right''"
| "position_string BottomLeft = ''bottom-left''"
| "position_string BottomRight = ''bottom-right''"
| "position_string Center = ''center''"

text \<open>\<^verbatim>\<open>String.prototype.includes\<close>: the second string occurs in the first.\<close>

fun string_includes :: "string \<Rightarrow> string \<Rightarrow> bool" where
  "string_includes [] t = (t = [])"
| "string_includes (c # s) t = (take (length t) (c # s) = t \<or> string_includes s t)"

definition position_includes :: "WatermarkPosition \<Rightarrow> string \<Rightarrow> bool" where
  "position_includes position t = string_includes (position_string position) t"

text \<open>
  \<^verbatim>\<open>getWatermarkPosition\<close> of unnamed/part\_001 (lines 275 to 303), which takes the padding
  from the caller.
\<close>

definition getWatermarkPosition_part_001 ::
  "rat \<Rightarrow> rat \<Rightarrow> rat \<Rightarrow> rat \<Rightarrow> WatermarkPosition \<Rightarrow> rat \<Rightarrow> rat \<times> rat" where
  "getWatermarkPosition_part_001 imageWidth imageHeight textWidth fontSize position padding =
     (let y = (if position_includes position ''top'' then padding + fontSize
               else if position_includes position ''bottom'' then imageHeight - padding
               else imageHeight / 2);
          x = (if position_includes position ''left'' then padding
               else if position_includes position ''right'' then imageWidth - padding
               else imageWidth / 2)
      in (x, y))"

text \<open>The \<^verbatim>\<open>textAnchor\<close> that \<^verbatim>\<open>generateWatermarkSVG\<close> of the same file computes.\<close>

datatype TextAnchor = Start | Middle | End

definition textAnchor_part_001 :: "WatermarkPosition \<Rightarrow> TextAnchor" where
  "textAnchor_part_001 position =
     (if position_includes position ''right'' then End
      else if position_includes position ''center'' then Middle
      else Start)"

text \<open>
  \<^verbatim>\<open>getWatermarkPosition\<close> of ImageProcessor.ts (lines 247 to 273): the text is anchored
  at its middle (the style sheet says \<^verbatim>\<open>text-anchor: middle\<close>), and the padding grows
  with the font size.
\<close>

definition getWatermarkPosition_ImageProcessor ::
  "rat \<Rightarrow> rat \<Rightarrow> rat \<Rightarrow> rat \<Rightarrow> WatermarkPosition \<Rightarrow> rat \<Rightarrow> rat \<times> rat" where
  "getWatermarkPosition_ImageProcessor imageWidth imageHeight textWidth fontSize position padding =
     (let x0 = imageWidth / 2;
          y0 = imageHeight / 2;
          effectivePadding = padding + fontSize / 4;
          y = (if position_includes position ''top'' then fontSize + effectivePadding
               else if position_includes position ''bottom'' then imageHeight - effectivePadding
               else y0);
          x = (if position_includes position ''left'' then textWidth / 2 + effectivePadding
               else if position_includes position ''right'' then imageWidth - textWidth / 2 - effectivePadding
               else x0)
      in (x, y))"

section \<open>JavaScript values and option bags\<close>

text \<open>
  The numbers other than the integers of magnitude up to \<open>2\<^sup>5\<^sup>3\<close>: \<^verbatim>\<open>NaN\<close>, the two
  infinities, the negative zero, and every other finite number. Such a finite number is
  kept as what \<^verbatim>\<open>Number::toString\<close> reads from it: its sign, the digits \<open>s\<close> of the
  shortest decimal numeral that denotes it (so \<open>s\<close> is at least 1 and is not divisible by
  10) and the exponent \<open>n\<close>, the magnitude of the number being \<open>s \<times> 10\<^sup>n\<^sup>-\<^sup>k\<close> for the
  number \<open>k\<close> of digits of \<open>s\<close>. So 0.5 is \<open>Decimal False 5 0\<close>, -12.25 is
  \<open>Decimal True 1225 2\<close> and \<open>10\<^sup>2\<^sup>1\<close> is \<open>Decimal False 1 22\<close>.
\<close>

datatype number = NaN | PosInfinity | NegInfinity | NegZero | Decimal bool nat int

text \<open>
  The values an option bag holds. A number is \<open>JNum n\<close> when it is the integer \<open>n\<close>, of
  magnitude at most \<open>2\<^sup>5\<^sup>3\<close> (widths, heights, angles, qualities, bytes: up to that
  bound every integer is a number, and is printed with all its digits), and \<open>JNumber x\<close>
  otherwise. A string is the list of its UTF-8 bytes. An object is the list of its own
  properties in the order in which JavaScript enumerates them, which for property names
  that are not integer indices (every option name) is the order of insertion.
\<close>

datatype json = JUndefined | JNull | JBool bool | JNum int | JNumber number | JStr string
  | JArr "json list" | JObj "(string \<times> json) list"

type_synonym options = "(string \<times> json) list"

text \<open>Reading a property: \<^verbatim>\<open>options.width\<close> is \<^verbatim>\<open>undefined\<close> when the bag has no such field.\<close>

definition field :: "options \<Rightarrow> string \<Rightarrow> json" where
  "field obj k = (case Map_get obj k of None \<Rightarrow> JUndefined | Some v \<Rightarrow> v)"

fun property :: "json \<Rightarrow> string \<Rightarrow> json" where
  "property (JObj ps) k = field ps k"
| "property v k = JUndefined"

text \<open>
  What an \<^verbatim>\<open>if (v)\<close> tests (the numbers that fail it are the two zeros and \<^verbatim>\<open>NaN\<close>), and
  \<^verbatim>\<open>typeof v === 'number'\<close>.
\<close>

fun truthy :: "json \<Rightarrow> bool" where
  "truthy JUndefined = False"
| "truthy JNull = False"
| "truthy (JBool b) = b"
| "truthy (JNum n) = (n \<noteq> 0)"
| "truthy (JNumber NaN) = False"
| "truthy (JNumber NegZero) = False"
| "truthy (JNumber x) = True"
| "truthy (JStr s) = (s \<noteq> [])"
| "truthy (JArr xs) = True"
| "truthy (JObj ps) = True"

fun is_number :: "json \<Rightarrow> bool" where
  "is_number (JNum n) = True"
| "is_number (JNumber x) = True"
| "is_number v = False"

text \<open>\<^verbatim>\<open>a || b\<close>.\<close>

definition js_or :: "json \<Rightarrow> json \<Rightarrow> json" where
  "js_or a b = (if truthy a then a else b)"

section \<open>The fingerprint builder\<close>

text \<open>
  Decimal rendering of an integer, as \<^verbatim>\<open>JSON.stringify\<close> prints an integer of magnitude
  up to \<open>2\<^sup>5\<^sup>3\<close>.
\<close>

definition digit_char :: "nat \<Rightarrow> char" where
  "digit_char n = ''0123456789'' ! n"

fun show_nat :: "nat \<Rightarrow> string" where
  "show_nat n = (if n < 10 then [digit_char n] else show_nat (n div 10) @ [digit_char (n mod 10)])"

declare show_nat.simps [simp del]

definition show_int :: "int \<Rightarrow> string" where
  "show_int i = (if i < 0 then CHR ''-'' # show_nat (nat (- i)) else show_nat (nat i))"

text \<open>
  \<^verbatim>\<open>Number::toString\<close> on a finite number that is not zero, from its digits \<open>s\<close> and its
  exponent \<open>n\<close>, with \<open>k\<close> the number of digits: a number with \<open>k \<le> n \<le> 21\<close> is printed as
  the digits followed by \<open>n - k\<close> zeros, a number with \<open>0 < n \<le> 21\<close> with a decimal point
  after \<open>n\<close> digits, a number with \<open>-6 < n \<le> 0\<close> as \<open>0.\<close> followed by \<open>-n\<close> zeros and the
  digits, and any other number in exponent notation.
\<close>

definition Number_toString :: "nat \<Rightarrow> int \<Rightarrow> string" where
  "Number_toString s n =
     (let digits = show_nat s; k = int (length digits)
      in if k \<le> n \<and> n \<le> 21 then digits @ replicate (nat (n - k)) (CHR ''0'')
         else if 0 < n \<and> n \<le> 21 then take (nat n) digits @ ''.'' @ drop (nat n) digits
         else if - 6 < n \<and> n \<le> 0 then ''0.'' @ replicate (nat (- n)) (CHR ''0'') @ digits
         else (if k = 1 then digits else take 1 digits @ ''.'' @ drop 1 digits)
              @ ''e'' @ (if n - 1 < 0 then ''-'' else ''+'') @ show_nat (nat \<bar>n - 1\<bar>))"

text \<open>
  \<^verbatim>\<open>JSON.stringify\<close> on a number that is not a \<open>JNum\<close>: \<^verbatim>\<open>null\<close> unless the number is
  finite, and what \<^verbatim>\<open>Number::toString\<close> prints otherwise.
\<close>

fun serialize_number :: "number \<Rightarrow> string" where
  "serialize_number NaN = ''null''"
| "serialize_number PosInfinity = ''null''"
| "serialize_number NegInfinity = ''null''"
| "serialize_number NegZero = ''0''"
| "serialize_number (Decimal neg s n) = (if neg then ''-'' else []) @ Number_toString s n"

text \<open>
  \<^verbatim>\<open>JSON.stringify\<close> on a string: the quotation mark, the backslash and the control
  characters are escaped, every other byte is copied.
\<close>

definition hex_digit :: "nat \<Rightarrow> char" where
  "hex_digit n = ''0123456789abcdef'' ! n"

definition escape_char :: "char \<Rightarrow> string" where
  "escape_char c =
     (if c = CHR 0x22 then [CHR 0x5C, CHR 0x22]
      else if c = CHR 0x5C then [CHR 0x5C, CHR 0x5C]
      else if c = CHR 0x08 then [CHR 0x5C, CHR ''b'']
      else if c = CHR 0x0C then [CHR 0x5C, CHR ''f'']
      else if c = CHR 0x0A then [CHR 0x5C, CHR ''n'']
      else if c = CHR 0x0D then [CHR 0x5C, CHR ''r'']
      else if c = CHR 0x09 then [CHR 0x5C, CHR ''t'']
      else if (of_char c :: nat) < 32
        then [CHR 0x5C, CHR ''u'', CHR ''0'', CHR ''0'',
              hex_digit (of_char c div 16), hex_digit (of_char c mod 16)]
      else [c])"

definition quote :: "string \<Rightarrow> string" where
  "quote s = CHR 0x22 # concat (map escape_char s) @ [CHR 0x22]"

text \<open>\<^verbatim>\<open>Array.prototype.join\<close>.\<close>

fun join :: "string \<Rightarrow> string list \<Rightarrow> string" where
  "join sep [] = []"
| "join sep [x] = x"
| "join sep (x # y # ys) = x @ sep @ join sep (y # ys)"

text \<open>
  \<^verbatim>\<open>JSON.stringify\<close> on a value that is not \<^verbatim>\<open>undefined\<close>: an object prints its
  properties in their enumeration order and skips those whose value is \<^verbatim>\<open>undefined\<close>; an
  array prints \<^verbatim>\<open>null\<close> for an \<^verbatim>\<open>undefined\<close> element.
\<close>

fun serialize :: "json \<Rightarrow> string" where
  "serialize JUndefined = ''null''"
| "serialize JNull = ''null''"
| "serialize (JBool b) = (if b then ''true'' else ''false'')"
| "serialize (JNum n) = show_int n"
| "serialize (JNumber x) = serialize_number x"
| "serialize (JStr s) = quote s"
| "serialize (JArr xs) = ''['' @ join '','' (map serialize xs) @ '']''"
| "serialize (JObj ps) =
     ''{'' @ join '',''
        (map (\<lambda>(k, v). quote k @ '':'' @ serialize v) (filter (\<lambda>(k, v). v \<noteq> JUndefined) ps))
      @ ''}''"

text \<open>A string that \<^verbatim>\<open>JSON.stringify\<close> copies unchanged between the quotation marks.\<close>

definition plain_string :: "string \<Rightarrow> bool" where
  "plain_string s = list_all (\<lambda>c. c \<noteq> CHR 0x22 \<and> c \<noteq> CHR 0x5C \<and> 32 \<le> (of_char c :: nat)) s"

text \<open>
  A property name that \<^verbatim>\<open>JSON.stringify\<close> copies unchanged and that does not start with a
  digit: it is not an integer index, so the property is enumerated at its place in the
  order of insertion. The names of the options are such names.
\<close>

definition field_name :: "string \<Rightarrow> bool" where
  "field_name k = (plain_string k \<and> list_all (\<lambda>c. c \<notin> set ''0123456789'') (take 1 k))"

text \<open>Reading a decimal numeral back, the inverse of \<open>show_nat\<close>.\<close>

definition digit_value :: "char \<Rightarrow> nat" where
  "digit_value c = of_char c - 48"

definition read_nat :: "string \<Rightarrow> nat" where
  "read_nat s = foldl (\<lambda>n c. 10 * n + digit_value c) 0 s"

text \<open>\<^verbatim>\<open>Buffer.prototype.toString('base64')\<close>.\<close>

definition base64_alphabet :: string where
  "base64_alphabet = ''ABCDEFGHIJKLMNOPQRSTUVWXYZabcdefghijklmnopqrstuvwxyz0123456789+/''"

definition b64 :: "nat \<Rightarrow> char" where
  "b64 n = base64_alphabet ! n"

fun base64 :: "8 word list \<Rightarrow> string" where
  "base64 [] = []"
| "base64 [a] =
     (let n = unat a in [b64 (n div 4), b64 (n mod 4 * 16), CHR ''='', CHR ''=''])"
| "base64 [a, b] =
     (let n = unat a * 256 + unat b
      in [b64 (n div 1024), b64 (n div 16 mod 64), b64 (n mod 16 * 4), CHR ''=''])"
| "base64 (a # b # c # rest) =
     (let n = unat a * 65536 + unat b * 256 + unat c
      in [b64 (n div 262144), b64 (n div 4096 mod 64), b64 (n div 64 mod 64), b64 (n mod 64)]
         @ base64 rest)"

text \<open>The input of \<^verbatim>\<open>process\<close>: a buffer of bytes or a string (a file path).\<close>

datatype Input = Buffer "8 word list" | Str string

text \<open>
  \<^verbatim>\<open>getCacheKey\<close> of the first file of unnamed/part\_002 (lines 34 to 37): the string
  itself or the first 32 characters of the base64 text of the buffer, a hyphen, and
  \<^verbatim>\<open>JSON.stringify(options)\<close>.
\<close>

definition getCacheKey :: "Input \<Rightarrow> options \<Rightarrow> string" where
  "getCacheKey input options =
     (let inputHash = (case input of Str s \<Rightarrow> s | Buffer bytes \<Rightarrow> take 32 (base64 bytes))
      in inputHash @ ''-'' @ serialize (JObj options))"

text \<open>
  The cache key of \<^verbatim>\<open>process\<close> in ImageProcessor.ts (line 71),
  \<^verbatim>\<open>JSON.stringify({ input, options })\<close>; a buffer serialises through its \<^verbatim>\<open>toJSON\<close>.
\<close>

fun Input_toJSON :: "Input \<Rightarrow> json" where
  "Input_toJSON (Buffer bytes) =
     JObj [(''type'', JStr ''Buffer''), (''data'', JArr (map (\<lambda>b. JNum (uint b)) bytes))]"
| "Input_toJSON (Str s) = JStr s"

definition cacheKey_ImageProcessor :: "Input \<Rightarrow> options \<Rightarrow> string" where
  "cacheKey_ImageProcessor input options =
     serialize (JObj [(''input'', Input_toJSON input), (''options'', JObj options)])"

text \<open>The printed members of an object.\<close>

definition members :: "options \<Rightarrow> string list" where
  "members ps = map (\<lambda>(k, v). quote k @ '':'' @ serialize v) (filter (\<lambda>(k, v). v \<noteq> JUndefined) ps)"

section \<open>The pipeline composer\<close>

text \<open>
  One constructor for each transform that \<^verbatim>\<open>process\<close> asks of the engine, with the
  values it is computed from. \<open>Linear c\<close> is the call \<^verbatim>\<open>linear(c, -(c - 1) * 128)\<close>, and
  \<open>ResizeAspect w a\<close> the call \<^verbatim>\<open>resize(w, Math.round(w / a))\<close>: the second argument of
  each is a function of the values kept. \<open>Watermark\<close> stands for the overlay stage
  (render the pipeline so far to a buffer, composite the text over it, start a new
  pipeline on the outcome), \<open>CircleMask\<close> for the destination-in composite of the
  circular mask.
\<close>

datatype PipelineStep =
    Resize json json
  | ResizeAspect json json
  | ResizeOptions json
  | Extract json
  | Blur json
  | Sharpen
  | Grayscale
  | Tint json
  | Modulate json
  | Linear json
  | Rotate json
  | Flip
  | Flop
  | Watermark json json
  | CircleMask
  | ToFormat json json

text \<open>\<^verbatim>\<open>if (c) pipeline = pipeline.step(...)\<close>: the step is appended when \<open>c\<close> holds.\<close>

definition step_if :: "bool \<Rightarrow> PipelineStep \<Rightarrow> PipelineStep list" where
  "step_if c s = (if c then [s] else [])"

text \<open>
  The object handed to \<^verbatim>\<open>modulate\<close> where the code fills it field by field under
  \<^verbatim>\<open>typeof ... === 'number'\<close>.
\<close>

definition modulateOptions :: "options \<Rightarrow> json" where
  "modulateOptions options =
     JObj ((if is_number (field options ''brightness'')
            then [(''brightness'', field options ''brightness'')] else [])
         @ (if is_number (field options ''saturation'')
            then [(''saturation'', field options ''saturation'')] else []))"

text \<open>The steps of \<^verbatim>\<open>process\<close> in ImageProcessor.ts (lines 77 to 132), in call order.\<close>

definition process_steps_ImageProcessor :: "options \<Rightarrow> PipelineStep list" where
  "process_steps_ImageProcessor options =
     step_if (truthy (field options ''width'') \<or> truthy (field options ''height''))
       (Resize (field options ''width'') (field options ''height''))
   @ step_if (truthy (field options ''crop''))
       (Extract (JObj [(''left'', property (field options ''crop'') ''left''),
                       (''top'', property (field options ''crop'') ''top''),
                       (''width'', property (field options ''crop'') ''width''),
                       (''height'', property (field options ''crop'') ''height'')]))
   @ step_if (truthy (field options ''blur'')) (Blur (field options ''blur''))
   @ step_if (truthy (field options ''sharpen'')) Sharpen
   @ step_if (truthy (field options ''grayscale'')) Grayscale
   @ step_if (truthy (field options ''tint'')) (Tint (field options ''tint''))
   @ step_if (is_number (field options ''brightness'') \<or> is_number (field options ''saturation''))
       (Modulate (modulateOptions options))
   @ step_if (is_number (field options ''contrast''))
       (Linear (field options ''contrast''))
   @ step_if (truthy (field options ''rotate'')) (Rotate (field options ''rotate''))
   @ step_if (truthy (field options ''flip'')) Flip
   @ step_if (truthy (field options ''flop'')) Flop
   @ step_if (truthy (field options ''watermark''))
       (Watermark (property (field options ''watermark'') ''text'') (field options ''watermark''))
   @ step_if (truthy (field options ''format''))
       (ToFormat (field options ''format'') (js_or (field options ''quality'') (JNum 80)))"

text \<open>
  The steps of \<^verbatim>\<open>process\<close> in the first file of unnamed/part\_002 (lines 80 to 148), the
  class with the queue.
\<close>

definition process_steps_part_002a :: "options \<Rightarrow> PipelineStep list" where
  "process_steps_part_002a options =
     step_if (truthy (field options ''width'') \<or> truthy (field options ''height''))
       (ResizeOptions (JObj [(''width'', field options ''width''),
                             (''height'', field options ''height''),
                             (''fit'', field options ''fit''),
                             (''position'', field options ''position''),
                             (''background'', field options ''background'')]))
   @ step_if (truthy (field options ''blur'')) (Blur (field options ''blur''))
   @ step_if (truthy (field options ''sharpen'')) Sharpen
   @ step_if (truthy (field options ''grayscale'')) Grayscale
   @ step_if (truthy (field options ''rotate'')) (Rotate (field options ''rotate''))
   @ step_if (truthy (field options ''flip'')) Flip
   @ step_if (truthy (field options ''flop'')) Flop
   @ step_if (truthy (field options ''tint'')) (Tint (field options ''tint''))
   @ step_if (truthy (field options ''brightness'') \<or> truthy (field options ''saturation''))
       (Modulate (JObj [(''brightness'', field options ''brightness''),
                        (''saturation'', field options ''saturation'')]))
   @ step_if (truthy (field options ''contrast''))
       (Linear (field options ''contrast''))
   @ step_if (truthy (field options ''watermark''))
       (Watermark (property (field options ''watermark'') ''text'') (field options ''watermark''))
   @ step_if (truthy (field options ''radius'')) CircleMask
   @ step_if (truthy (field options ''format''))
       (ToFormat (field options ''format'') (field options ''quality''))"

text \<open>
  \<^verbatim>\<open>applyProcessingOptions\<close> and the rest of \<^verbatim>\<open>process\<close> in the second file of
  unnamed/part\_002 (lines 300 to 318 and 364 to 401).
\<close>

definition applyProcessingOptions :: "options \<Rightarrow> PipelineStep list" where
  "applyProcessingOptions options =
     (if truthy (field options ''aspectRatio'') \<and> truthy (field options ''width'')
      then [ResizeAspect (field options ''width'') (field options ''aspectRatio'')]
      else step_if (truthy (field options ''width'') \<or> truthy (field options ''height''))
             (Resize (field options ''width'') (field options ''height'')))
   @ step_if (truthy (field options ''crop'')) (Extract (field options ''crop''))
   @ step_if (truthy (field options ''blur'')) (Blur (field options ''blur''))
   @ step_if (truthy (field options ''sharpen'')) Sharpen
   @ step_if (truthy (field options ''grayscale'')) Grayscale
   @ step_if (truthy (field options ''tint'')) (Tint (field options ''tint''))
   @ step_if (is_number (field options ''brightness'') \<or> is_number (field options ''saturation''))
       (Modulate (modulateOptions options))
   @ step_if (is_number (field options ''contrast''))
       (Linear (field options ''contrast''))
   @ step_if (truthy (field options ''rotate'')) (Rotate (field options ''rotate''))
   @ step_if (truthy (field options ''flip'')) Flip
   @ step_if (truthy (field options ''flop'')) Flop"

definition process_steps_part_002b :: "options \<Rightarrow> PipelineStep list" where
  "process_steps_part_002b options =
     applyProcessingOptions options
   @ step_if (truthy (field options ''watermark''))
       (Watermark (property (field options ''watermark'') ''text'') (field options ''watermark''))
   @ step_if (truthy (field options ''format''))
       (ToFormat (field options ''format'') (field options ''quality''))"

text \<open>
  The position of each kind of step in the order of ImageProcessor.ts, and in the order
  of the first file of unnamed/part\_002.
\<close>

fun step_rank :: "PipelineStep \<Rightarrow> nat" where
  "step_rank (Resize w h) = 0"
| "step_rank (ResizeAspect w a) = 0"
| "step_rank (ResizeOptions r) = 0"
| "step_rank (Extract r) = 1"
| "step_rank (Blur b) = 2"
| "step_rank Sharpen = 3"
| "step_rank Grayscale = 4"
| "step_rank (Tint t) = 5"
| "step_rank (Modulate m) = 6"
| "step_rank (Linear c) = 7"
| "step_rank (Rotate r) = 8"
| "step_rank Flip = 9"
| "step_rank Flop = 10"
| "step_rank (Watermark t w) = 11"
| "step_rank CircleMask = 12"
| "step_rank (ToFormat f q) = 13"

fun step_rank_part_002a :: "PipelineStep \<Rightarrow> nat" where
  "step_rank_part_002a (Resize w h) = 0"
| "step_rank_part_002a (ResizeAspect w a) = 0"
| "step_rank_part_002a (ResizeOptions r) = 0"
| "step_rank_part_002a (Extract r) = 1"
| "step_rank_part_002a (Blur b) = 2"
| "step_rank_part_002a Sharpen = 3"
| "step_rank_part_002a Grayscale = 4"
| "step_rank_part_002a (Rotate r) = 5"
| "step_rank_part_002a Flip = 6"
| "step_rank_part_002a Flop = 7"
| "step_rank_part_002a (Tint t) = 8"
| "step_rank_part_002a (Modulate m) = 9"
| "step_rank_part_002a (Linear c) = 10"
| "step_rank_part_002a (Watermark t w) = 11"
| "step_rank_part_002a CircleMask = 12"
| "step_rank_part_002a (ToFormat f q) = 13"

fun is_pixel_filter :: "PipelineStep \<Rightarrow> bool" where
  "is_pixel_filter (Blur b) = True"
| "is_pixel_filter Sharpen = True"
| "is_pixel_filter Grayscale = True"
| "is_pixel_filter (Tint t) = True"
| "is_pixel_filter s = False"

fun is_orientation :: "PipelineStep \<Rightarrow> bool" where
  "is_orientation (Rotate r) = True"
| "is_orientation Flip = True"
| "is_orientation Flop = True"
| "is_orientation s = False"

fun is_encode :: "PipelineStep \<Rightarrow> bool" where
  "is_encode (ToFormat f q) = True"
| "is_encode s = False"

text \<open>A list of steps whose ranks increase strictly and start at \<open>n\<close> or above.\<close>

definition ranked_from :: "(PipelineStep \<Rightarrow> nat) \<Rightarrow> nat \<Rightarrow> PipelineStep list \<Rightarrow> bool" where
  "ranked_from rk n xs = (sorted_wrt (<) (map rk xs) \<and> list_all (\<lambda>s. n \<le> rk s) xs)"

section \<open>Processing one image\<close>

text \<open>
  \<^verbatim>\<open>ImageProcessingError\<close>: a message, the original error (missing in the two-argument
  uses) and the operation (called \<^verbatim>\<open>functionName\<close> in one version of errors.ts). An
  \<open>EngineError\<close> is any error thrown by the image engine.
\<close>

datatype Error = EngineError string | ImageProcessingError string "Error option" "string option"

fun operation :: "Error \<Rightarrow> string option" where
  "operation (ImageProcessingError message originalError op) = op"
| "operation (EngineError message) = None"

text \<open>
  The image engine is a black box: given the input and the steps asked of it, it fails or
  returns the processed image, over whose type \<open>'r\<close> the model is generic.
\<close>

type_synonym 'r engine = "Input \<Rightarrow> PipelineStep list \<Rightarrow> Error + 'r"

text \<open>
  A string is kept as its UTF-8 bytes. The characters that \<^verbatim>\<open>String.prototype.trim\<close>
  removes are the white space and the line terminators of ECMAScript: U+0009 to U+000D,
  U+0020, U+00A0, U+1680, U+2000 to U+200A, U+2028, U+2029, U+202F, U+205F, U+3000 and
  U+FEFF, here each by its UTF-8 encoding.
\<close>

definition white_space :: "string list" where
  "white_space =
     [[CHR 0x09], [CHR 0x0A], [CHR 0x0B], [CHR 0x0C], [CHR 0x0D], [CHR 0x20],
      [CHR 0xC2, CHR 0xA0],
      [CHR 0xE1, CHR 0x9A, CHR 0x80],
      [CHR 0xE2, CHR 0x80, CHR 0x80], [CHR 0xE2, CHR 0x80, CHR 0x81],
      [CHR 0xE2, CHR 0x80, CHR 0x82], [CHR 0xE2, CHR 0x80, CHR 0x83],
      [CHR 0xE2, CHR 0x80, CHR 0x84], [CHR 0xE2, CHR 0x80, CHR 0x85],
      [CHR 0xE2, CHR 0x80, CHR 0x86], [CHR 0xE2, CHR 0x80, CHR 0x87],
      [CHR 0xE2, CHR 0x80, CHR 0x88], [CHR 0xE2, CHR 0x80, CHR 0x89],
      [CHR 0xE2, CHR 0x80, CHR 0x8A],
      [CHR 0xE2, CHR 0x80, CHR 0xA8], [CHR 0xE2, CHR 0x80, CHR 0xA9],
      [CHR 0xE2, CHR 0x80, CHR 0xAF],
      [CHR 0xE2, CHR 0x81, CHR 0x9F],
      [CHR 0xE3, CHR 0x80, CHR 0x80],
      [CHR 0xEF, CHR 0xBB, CHR 0xBF]]"

text \<open>The white space character at the head of a string, if there is one.\<close>

definition leading :: "string list \<Rightarrow> string \<Rightarrow> string option" where
  "leading ws s = find (\<lambda>w. w \<noteq> [] \<and> take (length w) s = w) ws"

text \<open>Removing the white space at the head of a string.\<close>

function strip :: "string list \<Rightarrow> string \<Rightarrow> string" where
  "strip ws s = (case leading ws s of None \<Rightarrow> s | Some w \<Rightarrow> strip ws (drop (length w) s))"
  by pat_completeness auto
termination
proof (relation "measure (\<lambda>(ws, s). length s)")
  show "wf (measure (\<lambda>(ws, s). length s))" by simp
next
  fix ws s w
  assume "leading ws s = Some w"
  then have w: "w \<noteq> []" "take (length w) s = w"
    by (auto simp: leading_def find_Some_iff)
  from w(2) have "length (take (length w) s) = length w" by simp
  then have "length w \<le> length s" by simp
  moreover from w(1) have "0 < length w" by simp
  ultimately have "length s - length w < length s" by linarith
  then show "((ws, drop (length w) s), (ws, s)) \<in> measure (\<lambda>(ws, s). length s)"
    by simp
qed

declare strip.simps [simp del]

text \<open>
  \<^verbatim>\<open>String.prototype.trim\<close>: the white space is removed at the head, then at the end
  (there the string and the characters are read backwards).
\<close>

definition trim :: "string \<Rightarrow> string" where
  "trim s = rev (strip (map rev white_space) (rev (strip white_space s)))"

text \<open>The number of bytes of a white space character, from its first byte.\<close>

definition token_length :: "char \<Rightarrow> nat" where
  "token_length c = (if c = CHR 0xC2 then 2 else if c \<in> set [CHR 0xE1, CHR 0xE2, CHR 0xE3, CHR 0xEF] then 3 else 1)"

text \<open>\<^verbatim>\<open>validateInput\<close> (unnamed/part\_002, lines 25 to 32); \<open>Inl\<close> is the error thrown.\<close>

definition validateInput :: "Input \<Rightarrow> Error + unit" where
  "validateInput input =
     (case input of
        Buffer bytes \<Rightarrow>
          if length bytes = 0 then Inl (ImageProcessingError ''Empty buffer provided'' None None)
          else Inr ()
      | Str s \<Rightarrow>
          if trim s = [] then Inl (ImageProcessingError ''Empty string provided'' None None)
          else Inr ())"

text \<open>\<^verbatim>\<open>safeExecute\<close> (lines 39 to 52) rethrows any error wrapped with the operation name.\<close>

definition safeExecute :: "string \<Rightarrow> Error + 'a \<Rightarrow> Error + 'a" where
  "safeExecute op r =
     (case r of
        Inl error \<Rightarrow> Inl (ImageProcessingError (''Failed to '' @ op) (Some error) (Some op))
      | Inr v \<Rightarrow> Inr v)"

text \<open>
  The clock readings of one \<^verbatim>\<open>process\<close> call: in \<^verbatim>\<open>cache.get\<close>, and in the scan and the
  insertion of \<^verbatim>\<open>cache.set\<close>.
\<close>

record Clock =
  t_get :: int
  t_scan :: int
  t_set :: int

text \<open>
  What one call of \<^verbatim>\<open>process\<close> does: its outcome, the requests it made to the engine, and
  the cache it leaves.
\<close>

record 'r Run =
  outcome :: "Error + 'r"
  engine_calls :: "(Input \<times> PipelineStep list) list"
  cache_after :: "'r ImageCache"

text \<open>
  \<^verbatim>\<open>process\<close> of the first file of unnamed/part\_002 (lines 69 to 172): the body that
  \<^verbatim>\<open>safeExecute('process image', ...)\<close> runs, then the wrapping.
\<close>

definition process_body_part_002a ::
  "'r engine \<Rightarrow> Clock \<Rightarrow> Input \<Rightarrow> options \<Rightarrow> 'r ImageCache \<Rightarrow> 'r Run" where
  "process_body_part_002a engine clk input options c =
     (case validateInput input of
        Inl error \<Rightarrow> \<lparr>outcome = Inl error, engine_calls = [], cache_after = c\<rparr>
      | Inr u \<Rightarrow>
          let cacheKey = getCacheKey input options;
              (cached, c1) = ImageCache_get (t_get clk) cacheKey c
          in (case cached of
                Some r \<Rightarrow> \<lparr>outcome = Inr r, engine_calls = [], cache_after = c1\<rparr>
              | None \<Rightarrow>
                  (case engine input (process_steps_part_002a options) of
                     Inl error \<Rightarrow>
                       \<lparr>outcome = Inl error,
                        engine_calls = [(input, process_steps_part_002a options)],
                        cache_after = c1\<rparr>
                   | Inr r \<Rightarrow>
                       \<lparr>outcome = Inr r,
                        engine_calls = [(input, process_steps_part_002a options)],
                        cache_after = ImageCache_set (t_scan clk) (t_set clk) cacheKey r c1\<rparr>)))"

definition process_part_002a ::
  "'r engine \<Rightarrow> Clock \<Rightarrow> Input \<Rightarrow> options \<Rightarrow> 'r ImageCache \<Rightarrow> 'r Run" where
  "process_part_002a engine clk input options c =
     (let run = process_body_part_002a engine clk input options c
      in run\<lparr>outcome := safeExecute ''process image'' (outcome run)\<rparr>)"

text \<open>
  \<^verbatim>\<open>process\<close> of ImageProcessor.ts (lines 69 to 160) runs in two parts. The first is
  synchronous: the cache key, the cache lookup and, on a miss, the pipeline that is handed
  to the engine. The second runs when the engine has answered: a result is stored in the
  cache and returned, an error is rethrown as an \<^verbatim>\<open>ImageProcessingError\<close> of the
  operation \<^verbatim>\<open>'process'\<close>.
\<close>

datatype 'r Started = Hit 'r | Miss string Input "PipelineStep list"

definition process_begin_ImageProcessor ::
  "int \<Rightarrow> Input \<Rightarrow> options \<Rightarrow> 'r ImageCache \<Rightarrow> 'r Started \<times> 'r ImageCache" where
  "process_begin_ImageProcessor now input options c =
     (let cacheKey = cacheKey_ImageProcessor input options;
          (cachedImage, c1) = ImageCache_get now cacheKey c
      in (case cachedImage of
            Some r \<Rightarrow> (Hit r, c1)
          | None \<Rightarrow> (Miss cacheKey input (process_steps_ImageProcessor options), c1)))"

definition engine_outcome_ImageProcessor ::
  "'r engine \<Rightarrow> Input \<Rightarrow> PipelineStep list \<Rightarrow> Error + 'r" where
  "engine_outcome_ImageProcessor engine input steps =
     (case engine input steps of
        Inl error \<Rightarrow>
          Inl (ImageProcessingError ''Failed to process image'' (Some error) (Some ''process''))
      | Inr r \<Rightarrow> Inr r)"

definition process_end_ImageProcessor ::
  "'r engine \<Rightarrow> int \<Rightarrow> int \<Rightarrow> string \<Rightarrow> Input \<Rightarrow> PipelineStep list \<Rightarrow> 'r ImageCache
    \<Rightarrow> (Error + 'r) \<times> 'r ImageCache" where
  "process_end_ImageProcessor engine now_scan now cacheKey input steps c =
     (case engine_outcome_ImageProcessor engine input steps of
        Inl error \<Rightarrow> (Inl error, c)
      | Inr r \<Rightarrow> (Inr r, ImageCache_set now_scan now cacheKey r c))"

definition process_ImageProcessor ::
  "'r engine \<Rightarrow> Clock \<Rightarrow> Input \<Rightarrow> options \<Rightarrow> 'r ImageCache \<Rightarrow> 'r Run" where
  "process_ImageProcessor engine clk input options c =
     (case process_begin_ImageProcessor (t_get clk) input options c of
        (Hit r, c1) \<Rightarrow> \<lparr>outcome = Inr r, engine_calls = [], cache_after = c1\<rparr>
      | (Miss cacheKey inp steps, c1) \<Rightarrow>
          (case process_end_ImageProcessor engine (t_scan clk) (t_set clk) cacheKey inp steps c1 of
             (out, c2) \<Rightarrow> \<lparr>outcome = out, engine_calls = [(inp, steps)], cache_after = c2\<rparr>))"

section \<open>Batches\<close>





subsection \<open>The queue of the first file of unnamed/part\_002\<close>















subsection \<open>The batch of ImageProcessor.ts\<close>








subsection \<open>Auxiliary notions for the proofs\<close>





section \<open>Verified properties\<close>

lemma position_includes_simps:
  "position_includes TopLeft ''top''" "position_includes TopRight ''top''"
  "\<not> position_includes BottomLeft ''top''" "\<not> position_includes BottomRight ''top''" "\<not> position_includes Center ''top''"
  "position_includes BottomLeft ''bottom''" "position_includes BottomRight ''bottom''"
  "\<not> position_includes TopLeft ''bottom''" "\<not> position_includes TopRight ''bottom''" "\<not> position_includes Center ''bottom''"
  "position_includes TopLeft ''left''" "position_includes BottomLeft ''left''"
  "\<not> position_includes TopRight ''left''" "\<not> position_includes BottomRight ''left''" "\<not> position_includes Center ''left''"
  "position_includes TopRight ''right''" "position_includes BottomRight ''right''"
  "\<not> position_includes TopLeft ''right''" "\<not> position_includes BottomLeft ''right''" "\<not> position_includes Center ''right''"
  "position_includes Center ''center''"
  "\<not> position_includes TopLeft ''center''" "\<not> position_includes TopRight ''center''"
  "\<not> position_includes BottomLeft ''center''" "\<not> position_includes BottomRight ''center''"
  by (simp_all add: position_includes_def)

subsection \<open>Image statistics\<close>

text \<open>
  C10 (as amended). \<^verbatim>\<open>getStats\<close> replaces every missing metadata field by its default
  (size 0, format unknown, width 0, height 0, hasAlpha false, colorSpace unknown, channels
  0), and the divisor of \<^verbatim>\<open>aspectRatio\<close>, \<^verbatim>\<open>metadata.height || 1\<close>, is never zero. When
  the height is missing or 0 the divisor is 1, so \<^verbatim>\<open>aspectRatio\<close> is the reported width
  (0 only when the width is missing or 0 as well).
\<close>

theorem C10_getStats_defaults:
  "getStats no_metadata =
      \<lparr>size_st = 0, format_st = ''unknown'', width_st = 0, height_st = 0, aspectRatio = 0,
       hasAlpha_st = False, colorSpace = ''unknown'', channels_st = 0, compression_st = None\<rparr>
   \<and> (size_md m = None \<longrightarrow> size_st (getStats m) = 0)
   \<and> (format_md m = None \<longrightarrow> format_st (getStats m) = ''unknown'')
   \<and> (width_md m = None \<longrightarrow> width_st (getStats m) = 0)
   \<and> (height_md m = None \<longrightarrow> height_st (getStats m) = 0)
   \<and> (hasAlpha_md m = None \<longrightarrow> \<not> hasAlpha_st (getStats m))
   \<and> (space_md m = None \<longrightarrow> colorSpace (getStats m) = ''unknown'')
   \<and> (channels_md m = None \<longrightarrow> channels_st (getStats m) = 0)
   \<and> aspect_divisor m \<noteq> 0
   \<and> aspectRatio (getStats m) = of_int (width_st (getStats m)) / of_int (aspect_divisor m)
   \<and> (height_md m = None \<or> height_md m = Some 0 \<longrightarrow>
        aspect_divisor m = 1 \<and> aspectRatio (getStats m) = of_int (width_st (getStats m)))"
  by (auto simp: getStats_def no_metadata_def aspect_divisor_def num_or_def str_or_def
      bool_or_def split: option.splits)

theorem C10_getStats_defaults_witness:
  "size_st (getStats (no_metadata\<lparr>width_md := Some 100\<rparr>)) = 0
   \<and> format_st (getStats (no_metadata\<lparr>width_md := Some 100\<rparr>)) = ''unknown''
   \<and> height_st (getStats (no_metadata\<lparr>width_md := Some 100\<rparr>)) = 0
   \<and> \<not> hasAlpha_st (getStats (no_metadata\<lparr>width_md := Some 100\<rparr>))
   \<and> colorSpace (getStats (no_metadata\<lparr>width_md := Some 100\<rparr>)) = ''unknown''
   \<and> channels_st (getStats (no_metadata\<lparr>width_md := Some 100\<rparr>)) = 0
   \<and> width_st (getStats (no_metadata\<lparr>height_md := Some 50\<rparr>)) = 0
   \<and> aspect_divisor (no_metadata\<lparr>width_md := Some 100\<rparr>) = 1
   \<and> aspectRatio (getStats (no_metadata\<lparr>width_md := Some 100\<rparr>))
       = of_int (width_st (getStats (no_metadata\<lparr>width_md := Some 100\<rparr>)))"
  using C10_getStats_defaults [of "no_metadata\<lparr>width_md := Some 100\<rparr>"]
    C10_getStats_defaults [of "no_metadata\<lparr>height_md := Some 50\<rparr>"]
  by (simp add: no_metadata_def)

theorem C10_aspectRatio_counterexample:
  "aspectRatio (getStats (no_metadata\<lparr>width_md := Some 100, height_md := Some 0\<rparr>)) = 100
   \<and> aspectRatio (getStats (no_metadata\<lparr>width_md := Some 100\<rparr>)) = 100
   \<and> aspectRatio (getStats (no_metadata\<lparr>width_md := Some 100\<rparr>)) \<noteq> 0"
  by (simp add: getStats_def no_metadata_def num_or_def)

subsection \<open>Placing the watermark text\<close>

text \<open>
  C7 (as amended). \<^verbatim>\<open>getWatermarkPosition\<close> of unnamed/part\_001, with the
  \<^verbatim>\<open>textAnchor\<close> of its caller, places the text as the claim says, for each of the five
  anchors: \<open>y\<close> is padding + font size for a top anchor, image height - padding for a
  bottom anchor, half the height otherwise; \<open>x\<close> is the padding with alignment start
  for a left anchor, image width - padding with alignment end for a right anchor, half
  the width with alignment middle otherwise. \<^verbatim>\<open>getWatermarkPosition\<close> of
  ImageProcessor.ts places the middle of the text instead, with the padding enlarged by a
  quarter of the font size, and computes no alignment.
\<close>

theorem C7_watermark_position:
  "getWatermarkPosition_part_001 W H tw fs pos p =
      (if position_includes pos ''left'' then p
       else if position_includes pos ''right'' then W - p else W / 2,
       if position_includes pos ''top'' then p + fs
       else if position_includes pos ''bottom'' then H - p else H / 2)
   \<and> textAnchor_part_001 pos =
      (if position_includes pos ''left'' then Start
       else if position_includes pos ''right'' then End else Middle)
   \<and> getWatermarkPosition_part_001 W H tw fs TopLeft p = (p, p + fs)
   \<and> getWatermarkPosition_part_001 W H tw fs TopRight p = (W - p, p + fs)
   \<and> getWatermarkPosition_part_001 W H tw fs BottomLeft p = (p, H - p)
   \<and> getWatermarkPosition_part_001 W H tw fs BottomRight p = (W - p, H - p)
   \<and> getWatermarkPosition_part_001 W H tw fs Center p = (W / 2, H / 2)
   \<and> (getWatermarkPosition_part_001 200 200 40 24 BottomRight 10, textAnchor_part_001 BottomRight)
       = ((190, 190), End)
   \<and> (getWatermarkPosition_part_001 200 200 40 24 TopLeft 10, textAnchor_part_001 TopLeft)
       = ((10, 34), Start)
   \<and> (getWatermarkPosition_part_001 200 200 40 24 Center 10, textAnchor_part_001 Center)
       = ((100, 100), Middle)
   \<and> getWatermarkPosition_ImageProcessor W H tw fs TopLeft p
       = (tw / 2 + (p + fs / 4), fs + (p + fs / 4))
   \<and> getWatermarkPosition_ImageProcessor W H tw fs TopRight p
       = (W - tw / 2 - (p + fs / 4), fs + (p + fs / 4))
   \<and> getWatermarkPosition_ImageProcessor W H tw fs BottomLeft p
       = (tw / 2 + (p + fs / 4), H - (p + fs / 4))
   \<and> getWatermarkPosition_ImageProcessor W H tw fs BottomRight p
       = (W - tw / 2 - (p + fs / 4), H - (p + fs / 4))
   \<and> getWatermarkPosition_ImageProcessor W H tw fs Center p = (W / 2, H / 2)"
proof -
  have general: "getWatermarkPosition_part_001 W H tw fs pos p =
      (if position_includes pos ''left'' then p
       else if position_includes pos ''right'' then W - p else W / 2,
       if position_includes pos ''top'' then p + fs
       else if position_includes pos ''bottom'' then H - p else H / 2)"
    by (simp add: getWatermarkPosition_part_001_def)
  have anchor: "textAnchor_part_001 pos =
      (if position_includes pos ''left'' then Start
       else if position_includes pos ''right'' then End else Middle)"
    by (cases pos) (simp_all add: textAnchor_part_001_def position_includes_simps)
  have each: "getWatermarkPosition_part_001 W H tw fs TopLeft p = (p, p + fs)"
    "getWatermarkPosition_part_001 W H tw fs TopRight p = (W - p, p + fs)"
    "getWatermarkPosition_part_001 W H tw fs BottomLeft p = (p, H - p)"
    "getWatermarkPosition_part_001 W H tw fs BottomRight p = (W - p, H - p)"
    "getWatermarkPosition_part_001 W H tw fs Center p = (W / 2, H / 2)"
    by (simp_all add: getWatermarkPosition_part_001_def position_includes_simps)
  have examples:
    "(getWatermarkPosition_part_001 200 200 40 24 BottomRight 10, textAnchor_part_001 BottomRight)
       = ((190, 190), End)"
    "(getWatermarkPosition_part_001 200 200 40 24 TopLeft 10, textAnchor_part_001 TopLeft)
       = ((10, 34), Start)"
    "(getWatermarkPosition_part_001 200 200 40 24 Center 10, textAnchor_part_001 Center)
       = ((100, 100), Middle)"
    by (simp_all add: getWatermarkPosition_part_001_def textAnchor_part_001_def
        position_includes_simps)
  have other: "getWatermarkPosition_ImageProcessor W H tw fs TopLeft p
       = (tw / 2 + (p + fs / 4), fs + (p + fs / 4))"
    "getWatermarkPosition_ImageProcessor W H tw fs TopRight p
       = (W - tw / 2 - (p + fs / 4), fs + (p + fs / 4))"
    "getWatermarkPosition_ImageProcessor W H tw fs BottomLeft p
       = (tw / 2 + (p + fs / 4), H - (p + fs / 4))"
    "getWatermarkPosition_ImageProcessor W H tw fs BottomRight p
       = (W - tw / 2 - (p + fs / 4), H - (p + fs / 4))"
    "getWatermarkPosition_ImageProcessor W H tw fs Center p = (W / 2, H / 2)"
    by (simp_all add: getWatermarkPosition_ImageProcessor_def Let_def position_includes_simps)
  from general anchor each examples other show ?thesis by simp
qed

theorem C7_ImageProcessor_counterexample:
  "getWatermarkPosition_ImageProcessor 200 200 40 24 BottomRight 10 = (164, 184)
   \<and> getWatermarkPosition_ImageProcessor 200 200 40 24 BottomRight 10 \<noteq> (190, 190)
   \<and> getWatermarkPosition_ImageProcessor 200 200 40 24 TopLeft 10 = (36, 40)"
  by (simp add: getWatermarkPosition_ImageProcessor_def Let_def position_includes_simps)

subsection \<open>The pipeline composer\<close>

lemma filter_step_if: "filter P (step_if c s) = step_if (c \<and> P s) s"
  by (simp add: step_if_def)

lemma step_if_False: "step_if False s = []"
  by (simp add: step_if_def)

lemma ranked_from_step_if:
  "n \<le> rk s \<Longrightarrow> ranked_from rk (Suc (rk s)) rest \<Longrightarrow> ranked_from rk n (step_if c s @ rest)"
  by (auto simp: ranked_from_def step_if_def list_all_iff)

lemma ranked_from_step_if_last: "n \<le> rk s \<Longrightarrow> ranked_from rk n (step_if c s)"
  by (auto simp: ranked_from_def step_if_def)

lemma ranked_from_choice:
  "ranked_from rk n (xs @ rest) \<Longrightarrow> ranked_from rk n (ys @ rest)
    \<Longrightarrow> ranked_from rk n ((if c then xs else ys) @ rest)"
  by simp

lemma ranked_from_single:
  "n \<le> rk s \<Longrightarrow> ranked_from rk (Suc (rk s)) rest \<Longrightarrow> ranked_from rk n ([s] @ rest)"
  by (auto simp: ranked_from_def list_all_iff)

lemma ranked_from_sorted: "ranked_from rk n xs \<Longrightarrow> sorted_wrt (<) (map rk xs)"
  by (simp add: ranked_from_def)

lemma sorted_steps_ImageProcessor:
  "sorted_wrt (<) (map step_rank (process_steps_ImageProcessor options))"
  unfolding process_steps_ImageProcessor_def
  by (rule ranked_from_sorted [where n = 0])
     (intro ranked_from_step_if ranked_from_step_if_last; simp)

lemma sorted_steps_part_002a:
  "sorted_wrt (<) (map step_rank_part_002a (process_steps_part_002a options))"
  unfolding process_steps_part_002a_def
  by (rule ranked_from_sorted [where n = 0])
     (intro ranked_from_step_if ranked_from_step_if_last; simp)

lemma sorted_steps_part_002b:
  "sorted_wrt (<) (map step_rank (process_steps_part_002b options))"
  unfolding process_steps_part_002b_def applyProcessingOptions_def append_assoc
  by (rule ranked_from_sorted [where n = 0])
     (intro ranked_from_choice ranked_from_single ranked_from_step_if ranked_from_step_if_last;
      simp)

lemma encode_steps_ImageProcessor:
  "filter is_encode (process_steps_ImageProcessor options)
   = step_if (truthy (field options ''format''))
       (ToFormat (field options ''format'') (js_or (field options ''quality'') (JNum 80)))"
  by (simp add: process_steps_ImageProcessor_def filter_step_if step_if_False)

lemma encode_steps_part_002a:
  "filter is_encode (process_steps_part_002a options)
   = step_if (truthy (field options ''format''))
       (ToFormat (field options ''format'') (field options ''quality''))"
  by (simp add: process_steps_part_002a_def filter_step_if step_if_False)

lemma encode_steps_part_002b:
  "filter is_encode (process_steps_part_002b options)
   = step_if (truthy (field options ''format''))
       (ToFormat (field options ''format'') (field options ''quality''))"
  by (simp add: process_steps_part_002b_def applyProcessingOptions_def filter_step_if
      step_if_False)

lemma last_of_max_rank:
  "sorted_wrt (<) (map rk xs) \<Longrightarrow> s \<in> set xs \<Longrightarrow> \<forall>t\<in>set xs. rk t \<le> (rk s :: nat)
    \<Longrightarrow> last xs = s"
proof (induction xs)
  case Nil
  then show ?case by simp
next
  case (Cons x xs)
  show ?case
  proof (cases "xs = []")
    case True
    with Cons.prems show ?thesis by simp
  next
    case False
    then obtain t where t: "t \<in> set xs" by (cases xs) auto
    have "s \<noteq> x"
    proof
      assume "s = x"
      with Cons.prems(1) t have "rk s < rk t" by auto
      moreover from Cons.prems(3) t have "rk t \<le> rk s" by simp
      ultimately show False by simp
    qed
    with Cons.prems have "s \<in> set xs" by simp
    moreover from Cons.prems have "sorted_wrt (<) (map rk xs)" "\<forall>t\<in>set xs. rk t \<le> rk s"
      by simp_all
    ultimately have "last xs = s" using Cons.IH by blast
    with False show ?thesis by simp
  qed
qed

lemma step_rank_le: "step_rank t \<le> 13" "step_rank_part_002a t \<le> 13"
  by (cases t; simp)+

lemma mem_of_filter: "filter P xs = step_if c s \<Longrightarrow> c \<Longrightarrow> s \<in> set xs"
proof -
  assume "filter P xs = step_if c s" and c
  then have "s \<in> set (filter P xs)" by (simp add: step_if_def)
  then show ?thesis by simp
qed

lemma encode_last_ImageProcessor:
  assumes "truthy (field options ''format'')"
  shows "last (process_steps_ImageProcessor options)
    = ToFormat (field options ''format'') (js_or (field options ''quality'') (JNum 80))"
proof (rule last_of_max_rank [where rk = step_rank])
  show "sorted_wrt (<) (map step_rank (process_steps_ImageProcessor options))"
    by (rule sorted_steps_ImageProcessor)
  show "ToFormat (field options ''format'') (js_or (field options ''quality'') (JNum 80))
      \<in> set (process_steps_ImageProcessor options)"
    using encode_steps_ImageProcessor assms by (rule mem_of_filter)
  show "\<forall>t\<in>set (process_steps_ImageProcessor options). step_rank t
      \<le> step_rank (ToFormat (field options ''format'') (js_or (field options ''quality'') (JNum 80)))"
    by (simp add: step_rank_le)
qed

lemma encode_last_part_002a:
  assumes "truthy (field options ''format'')"
  shows "last (process_steps_part_002a options)
    = ToFormat (field options ''format'') (field options ''quality'')"
proof (rule last_of_max_rank [where rk = step_rank_part_002a])
  show "sorted_wrt (<) (map step_rank_part_002a (process_steps_part_002a options))"
    by (rule sorted_steps_part_002a)
  show "ToFormat (field options ''format'') (field options ''quality'')
      \<in> set (process_steps_part_002a options)"
    using encode_steps_part_002a assms by (rule mem_of_filter)
  show "\<forall>t\<in>set (process_steps_part_002a options). step_rank_part_002a t
      \<le> step_rank_part_002a (ToFormat (field options ''format'') (field options ''quality''))"
    by (simp add: step_rank_le)
qed

lemma encode_last_part_002b:
  assumes "truthy (field options ''format'')"
  shows "last (process_steps_part_002b options)
    = ToFormat (field options ''format'') (field options ''quality'')"
proof (rule last_of_max_rank [where rk = step_rank])
  show "sorted_wrt (<) (map step_rank (process_steps_part_002b options))"
    by (rule sorted_steps_part_002b)
  show "ToFormat (field options ''format'') (field options ''quality'')
      \<in> set (process_steps_part_002b options)"
    using encode_steps_part_002b assms by (rule mem_of_filter)
  show "\<forall>t\<in>set (process_steps_part_002b options). step_rank t
      \<le> step_rank (ToFormat (field options ''format'') (field options ''quality''))"
    by (simp add: step_rank_le)
qed

lemma steps_by_rank_ImageProcessor:
  "filter (\<lambda>s. step_rank s = 0) (process_steps_ImageProcessor options)
       = step_if (truthy (field options ''width'') \<or> truthy (field options ''height''))
           (Resize (field options ''width'') (field options ''height''))"
  "filter (\<lambda>s. step_rank s = 1) (process_steps_ImageProcessor options)
       = step_if (truthy (field options ''crop''))
           (Extract (JObj [(''left'', property (field options ''crop'') ''left''),
                 (''top'', property (field options ''crop'') ''top''),
                 (''width'', property (field options ''crop'') ''width''),
                 (''height'', property (field options ''crop'') ''height'')]))"
  "filter (\<lambda>s. step_rank s = 2) (process_steps_ImageProcessor options)
       = step_if (truthy (field options ''blur''))
           (Blur (field options ''blur''))"
  "filter (\<lambda>s. step_rank s = 3) (process_steps_ImageProcessor options)
       = step_if (truthy (field options ''sharpen''))
           Sharpen"
  "filter (\<lambda>s. step_rank s = 4) (process_steps_ImageProcessor options)
       = step_if (truthy (field options ''grayscale''))
           Grayscale"
  "filter (\<lambda>s. step_rank s = 5) (process_steps_ImageProcessor options)
       = step_if (truthy (field options ''tint''))
           (Tint (field options ''tint''))"
  "filter (\<lambda>s. step_rank s = 6) (process_steps_ImageProcessor options)
       = step_if (is_number (field options ''brightness'') \<or> is_number (field options ''saturation''))
           (Modulate (modulateOptions options))"
  "filter (\<lambda>s. step_rank s = 7) (process_steps_ImageProcessor options)
       = step_if (is_number (field options ''contrast''))
           (Linear (field options ''contrast''))"
  "filter (\<lambda>s. step_rank s = 8) (process_steps_ImageProcessor options)
       = step_if (truthy (field options ''rotate''))
           (Rotate (field options ''rotate''))"
  "filter (\<lambda>s. step_rank s = 9) (process_steps_ImageProcessor options)
       = step_if (truthy (field options ''flip''))
           Flip"
  "filter (\<lambda>s. step_rank s = 10) (process_steps_ImageProcessor options)
       = step_if (truthy (field options ''flop''))
           Flop"
  "filter (\<lambda>s. step_rank s = 11) (process_steps_ImageProcessor options)
       = step_if (truthy (field options ''watermark''))
           (Watermark (property (field options ''watermark'') ''text'') (field options ''watermark''))"
  "filter (\<lambda>s. step_rank s = 12) (process_steps_ImageProcessor options) = []"
  "filter (\<lambda>s. step_rank s = 13) (process_steps_ImageProcessor options)
       = step_if (truthy (field options ''format''))
           (ToFormat (field options ''format'') (js_or (field options ''quality'') (JNum 80)))"
  by (simp_all add: process_steps_ImageProcessor_def filter_step_if step_if_False)

lemma steps_by_rank_part_002a:
  "filter (\<lambda>s. step_rank_part_002a s = 0) (process_steps_part_002a options)
       = step_if (truthy (field options ''width'') \<or> truthy (field options ''height''))
           (ResizeOptions (JObj [(''width'', field options ''width''),
                 (''height'', field options ''height''),
                 (''fit'', field options ''fit''),
                 (''position'', field options ''position''),
                 (''background'', field options ''background'')]))"
  "filter (\<lambda>s. step_rank_part_002a s = 1) (process_steps_part_002a options) = []"
  "filter (\<lambda>s. step_rank_part_002a s = 2) (process_steps_part_002a options)
       = step_if (truthy (field options ''blur''))
           (Blur (field options ''blur''))"
  "filter (\<lambda>s. step_rank_part_002a s = 3) (process_steps_part_002a options)
       = step_if (truthy (field options ''sharpen''))
           Sharpen"
  "filter (\<lambda>s. step_rank_part_002a s = 4) (process_steps_part_002a options)
       = step_if (truthy (field options ''grayscale''))
           Grayscale"
  "filter (\<lambda>s. step_rank_part_002a s = 5) (process_steps_part_002a options)
       = step_if (truthy (field options ''rotate''))
           (Rotate (field options ''rotate''))"
  "filter (\<lambda>s. step_rank_part_002a s = 6) (process_steps_part_002a options)
       = step_if (truthy (field options ''flip''))
           Flip"
  "filter (\<lambda>s. step_rank_part_002a s = 7) (process_steps_part_002a options)
       = step_if (truthy (field options ''flop''))
           Flop"
  "filter (\<lambda>s. step_rank_part_002a s = 8) (process_steps_part_002a options)
       = step_if (truthy (field options ''tint''))
           (Tint (field options ''tint''))"
  "filter (\<lambda>s. step_rank_part_002a s = 9) (process_steps_part_002a options)
       = step_if (truthy (field options ''brightness'') \<or> truthy (field options ''saturation''))
           (Modulate (JObj [(''brightness'', field options ''brightness''),
                 (''saturation'', field options ''saturation'')]))"
  "filter (\<lambda>s. step_rank_part_002a s = 10) (process_steps_part_002a options)
       = step_if (truthy (field options ''contrast''))
           (Linear (field options ''contrast''))"
  "filter (\<lambda>s. step_rank_part_002a s = 11) (process_steps_part_002a options)
       = step_if (truthy (field options ''watermark''))
           (Watermark (property (field options ''watermark'') ''text'') (field options ''watermark''))"
  "filter (\<lambda>s. step_rank_part_002a s = 12) (process_steps_part_002a options)
       = step_if (truthy (field options ''radius''))
           CircleMask"
  "filter (\<lambda>s. step_rank_part_002a s = 13) (process_steps_part_002a options)
       = step_if (truthy (field options ''format''))
           (ToFormat (field options ''format'') (field options ''quality''))"
  by (simp_all add: process_steps_part_002a_def filter_step_if step_if_False)

text \<open>
  C6 (as amended). In ImageProcessor.ts \<^verbatim>\<open>process\<close> applies the enabled steps in the order
  resize, crop, blur, sharpen, grayscale, tint, modulation, linear contrast, rotate, flip,
  flop, overlay, encode (the second file of unnamed/part\_002 keeps that order): the ranks
  of the steps increase strictly along the pipeline, and for each rank the pipeline holds
  exactly the step of that rank when its option enables it, and no step of that rank
  otherwise. A step is enabled when its option is truthy, the modulation when the
  brightness or the saturation is a number, the linear contrast when the contrast is a
  number. So every pixel filter comes before every orientation step, and the encode
  step, when a format is requested, is the last one. In the first file of
  unnamed/part\_002 the order is resize, blur, sharpen, grayscale, rotate, flip, flop,
  tint, modulation, linear contrast, overlay, circular mask, encode, every step being
  enabled by a truthy option: the tint is applied after the orientation steps, there is
  no crop step, and the encode step is again last.
\<close>

theorem C6_step_order:
  "sorted_wrt (<) (map step_rank (process_steps_ImageProcessor options))
   \<and> sorted_wrt (<) (map step_rank (process_steps_part_002b options))
   \<and> filter (\<lambda>s. is_pixel_filter s \<or> is_orientation s) (process_steps_ImageProcessor options)
       = filter is_pixel_filter (process_steps_ImageProcessor options)
         @ filter is_orientation (process_steps_ImageProcessor options)
   \<and> (truthy (field options ''format'') \<longrightarrow>
        last (process_steps_ImageProcessor options)
        = ToFormat (field options ''format'') (js_or (field options ''quality'') (JNum 80)))
   \<and> sorted_wrt (<) (map step_rank_part_002a (process_steps_part_002a options))
   \<and> filter is_orientation (process_steps_part_002a options)
         @ filter (\<lambda>s. s = Tint (field options ''tint'')) (process_steps_part_002a options)
       = filter (\<lambda>s. is_orientation s \<or> s = Tint (field options ''tint''))
           (process_steps_part_002a options)
   \<and> (truthy (field options ''format'') \<longrightarrow>
        last (process_steps_part_002a options)
        = ToFormat (field options ''format'') (field options ''quality''))
   \<and> filter (\<lambda>s. step_rank s = 0) (process_steps_ImageProcessor options)
       = step_if (truthy (field options ''width'') \<or> truthy (field options ''height''))
           (Resize (field options ''width'') (field options ''height''))
   \<and> filter (\<lambda>s. step_rank s = 1) (process_steps_ImageProcessor options)
       = step_if (truthy (field options ''crop''))
           (Extract (JObj [(''left'', property (field options ''crop'') ''left''),
                 (''top'', property (field options ''crop'') ''top''),
                 (''width'', property (field options ''crop'') ''width''),
                 (''height'', property (field options ''crop'') ''height'')]))
   \<and> filter (\<lambda>s. step_rank s = 2) (process_steps_ImageProcessor options)
       = step_if (truthy (field options ''blur''))
           (Blur (field options ''blur''))
   \<and> filter (\<lambda>s. step_rank s = 3) (process_steps_ImageProcessor options)
       = step_if (truthy (field options ''sharpen''))
           Sharpen
   \<and> filter (\<lambda>s. step_rank s = 4) (process_steps_ImageProcessor options)
       = step_if (truthy (field options ''grayscale''))
           Grayscale
   \<and> filter (\<lambda>s. step_rank s = 5) (process_steps_ImageProcessor options)
       = step_if (truthy (field options ''tint''))
           (Tint (field options ''tint''))
   \<and> filter (\<lambda>s. step_rank s = 6) (process_steps_ImageProcessor options)
       = step_if (is_number (field options ''brightness'') \<or> is_number (field options ''saturation''))
           (Modulate (modulateOptions options))
   \<and> filter (\<lambda>s. step_rank s = 7) (process_steps_ImageProcessor options)
       = step_if (is_number (field options ''contrast''))
           (Linear (field options ''contrast''))
   \<and> filter (\<lambda>s. step_rank s = 8) (process_steps_ImageProcessor options)
       = step_if (truthy (field options ''rotate''))
           (Rotate (field options ''rotate''))
   \<and> filter (\<lambda>s. step_rank s = 9) (process_steps_ImageProcessor options)
       = step_if (truthy (field options ''flip''))
           Flip
   \<and> filter (\<lambda>s. step_rank s = 10) (process_steps_ImageProcessor options)
       = step_if (truthy (field options ''flop''))
           Flop
   \<and> filter (\<lambda>s. step_rank s = 11) (process_steps_ImageProcessor options)
       = step_if (truthy (field options ''watermark''))
           (Watermark (property (field options ''watermark'') ''text'') (field options ''watermark''))
   \<and> filter (\<lambda>s. step_rank s = 12) (process_steps_ImageProcessor options) = []
   \<and> filter (\<lambda>s. step_rank s = 13) (process_steps_ImageProcessor options)
       = step_if (truthy (field options ''format''))
           (ToFormat (field options ''format'') (js_or (field options ''quality'') (JNum 80)))
   \<and> filter (\<lambda>s. step_rank_part_002a s = 0) (process_steps_part_002a options)
       = step_if (truthy (field options ''width'') \<or> truthy (field options ''height''))
           (ResizeOptions (JObj [(''width'', field options ''width''),
                 (''height'', field options ''height''),
                 (''fit'', field options ''fit''),
                 (''position'', field options ''position''),
                 (''background'', field options ''background'')]))
   \<and> filter (\<lambda>s. step_rank_part_002a s = 1) (process_steps_part_002a options) = []
   \<and> filter (\<lambda>s. step_rank_part_002a s = 2) (process_steps_part_002a options)
       = step_if (truthy (field options ''blur''))
           (Blur (field options ''blur''))
   \<and> filter (\<lambda>s. step_rank_part_002a s = 3) (process_steps_part_002a options)
       = step_if (truthy (field options ''sharpen''))
           Sharpen
   \<and> filter (\<lambda>s. step_rank_part_002a s = 4) (process_steps_part_002a options)
       = step_if (truthy (field options ''grayscale''))
           Grayscale
   \<and> filter (\<lambda>s. step_rank_part_002a s = 5) (process_steps_part_002a options)
       = step_if (truthy (field options ''rotate''))
           (Rotate (field options ''rotate''))
   \<and> filter (\<lambda>s. step_rank_part_002a s = 6) (process_steps_part_002a options)
       = step_if (truthy (field options ''flip''))
           Flip
   \<and> filter (\<lambda>s. step_rank_part_002a s = 7) (process_steps_part_002a options)
       = step_if (truthy (field options ''flop''))
           Flop
   \<and> filter (\<lambda>s. step_rank_part_002a s = 8) (process_steps_part_002a options)
       = step_if (truthy (field options ''tint''))
           (Tint (field options ''tint''))
   \<and> filter (\<lambda>s. step_rank_part_002a s = 9) (process_steps_part_002a options)
       = step_if (truthy (field options ''brightness'') \<or> truthy (field options ''saturation''))
           (Modulate (JObj [(''brightness'', field options ''brightness''),
                 (''saturation'', field options ''saturation'')]))
   \<and> filter (\<lambda>s. step_rank_part_002a s = 10) (process_steps_part_002a options)
       = step_if (truthy (field options ''contrast''))
           (Linear (field options ''contrast''))
   \<and> filter (\<lambda>s. step_rank_part_002a s = 11) (process_steps_part_002a options)
       = step_if (truthy (field options ''watermark''))
           (Watermark (property (field options ''watermark'') ''text'') (field options ''watermark''))
   \<and> filter (\<lambda>s. step_rank_part_002a s = 12) (process_steps_part_002a options)
       = step_if (truthy (field options ''radius''))
           CircleMask
   \<and> filter (\<lambda>s. step_rank_part_002a s = 13) (process_steps_part_002a options)
       = step_if (truthy (field options ''format''))
           (ToFormat (field options ''format'') (field options ''quality''))"
proof -
  have split: "filter (\<lambda>s. is_pixel_filter s \<or> is_orientation s) (process_steps_ImageProcessor options)
       = filter is_pixel_filter (process_steps_ImageProcessor options)
         @ filter is_orientation (process_steps_ImageProcessor options)"
    by (simp add: process_steps_ImageProcessor_def filter_step_if step_if_False)
  have tint_late: "filter is_orientation (process_steps_part_002a options)
         @ filter (\<lambda>s. s = Tint (field options ''tint'')) (process_steps_part_002a options)
       = filter (\<lambda>s. is_orientation s \<or> s = Tint (field options ''tint''))
           (process_steps_part_002a options)"
    by (simp add: process_steps_part_002a_def filter_step_if step_if_False)
  from split tint_late sorted_steps_ImageProcessor sorted_steps_part_002a
    sorted_steps_part_002b encode_last_ImageProcessor encode_last_part_002a
  have order: "sorted_wrt (<) (map step_rank (process_steps_ImageProcessor options))
   \<and> sorted_wrt (<) (map step_rank (process_steps_part_002b options))
   \<and> filter (\<lambda>s. is_pixel_filter s \<or> is_orientation s) (process_steps_ImageProcessor options)
       = filter is_pixel_filter (process_steps_ImageProcessor options)
         @ filter is_orientation (process_steps_ImageProcessor options)
   \<and> (truthy (field options ''format'') \<longrightarrow>
        last (process_steps_ImageProcessor options)
        = ToFormat (field options ''format'') (js_or (field options ''quality'') (JNum 80)))
   \<and> sorted_wrt (<) (map step_rank_part_002a (process_steps_part_002a options))
   \<and> filter is_orientation (process_steps_part_002a options)
         @ filter (\<lambda>s. s = Tint (field options ''tint'')) (process_steps_part_002a options)
       = filter (\<lambda>s. is_orientation s \<or> s = Tint (field options ''tint''))
           (process_steps_part_002a options)
   \<and> (truthy (field options ''format'') \<longrightarrow>
        last (process_steps_part_002a options)
        = ToFormat (field options ''format'') (field options ''quality''))"
    by blast
  show ?thesis
    by (intro conjI order [THEN conjunct1]
        order [THEN conjunct2, THEN conjunct1]
        order [THEN conjunct2, THEN conjunct2, THEN conjunct1]
        order [THEN conjunct2, THEN conjunct2, THEN conjunct2, THEN conjunct1]
        order [THEN conjunct2, THEN conjunct2, THEN conjunct2, THEN conjunct2, THEN conjunct1]
        order [THEN conjunct2, THEN conjunct2, THEN conjunct2, THEN conjunct2, THEN conjunct2,
          THEN conjunct1]
        order [THEN conjunct2, THEN conjunct2, THEN conjunct2, THEN conjunct2, THEN conjunct2,
          THEN conjunct2]
        steps_by_rank_ImageProcessor steps_by_rank_part_002a)
qed

theorem C6_step_order_witness:
  "last (process_steps_ImageProcessor
      [(''width'', JNum 800), (''tint'', JStr ''red''), (''rotate'', JNum 90),
       (''format'', JStr ''webp'')])
     = ToFormat (JStr ''webp'') (JNum 80)
   \<and> last (process_steps_part_002a
      [(''width'', JNum 800), (''tint'', JStr ''red''), (''rotate'', JNum 90),
       (''format'', JStr ''webp'')])
     = ToFormat (JStr ''webp'') JUndefined
   \<and> filter (\<lambda>s. step_rank s = 5) (process_steps_ImageProcessor
      [(''width'', JNum 800), (''tint'', JStr ''red''), (''rotate'', JNum 90),
       (''format'', JStr ''webp'')])
     = [Tint (JStr ''red'')]
   \<and> filter (\<lambda>s. step_rank_part_002a s = 5) (process_steps_part_002a
      [(''width'', JNum 800), (''tint'', JStr ''red''), (''rotate'', JNum 90),
       (''format'', JStr ''webp'')])
     = [Rotate (JNum 90)]"
  using C6_step_order [of "[(''width'', JNum 800), (''tint'', JStr ''red''),
      (''rotate'', JNum 90), (''format'', JStr ''webp'')]"]
  by (simp add: field_def js_or_def step_if_def)

theorem C6_tint_after_rotate_counterexample:
  "process_steps_part_002a [(''tint'', JStr ''red''), (''rotate'', JNum 90)]
     = [Rotate (JNum 90), Tint (JStr ''red'')]
   \<and> \<not> sorted_wrt (<) (map step_rank
         (process_steps_part_002a [(''tint'', JStr ''red''), (''rotate'', JNum 90)]))"
  by (simp add: process_steps_part_002a_def step_if_def field_def)

text \<open>
  C9 (as amended). In ImageProcessor.ts the encode step exists exactly when a format is
  requested; its quality is \<^verbatim>\<open>options.quality || 80\<close>: 80 when the quality is unspecified
  (or 0), the given quality otherwise. Both files of unnamed/part\_002 pass
  \<^verbatim>\<open>options.quality\<close> as it is, \<^verbatim>\<open>undefined\<close> when unspecified, and leave the default to
  the engine. Without a format no file adds an encode step.
\<close>

theorem C9_encode_quality:
  "filter is_encode (process_steps_ImageProcessor options)
     = step_if (truthy (field options ''format''))
         (ToFormat (field options ''format'') (js_or (field options ''quality'') (JNum 80)))
   \<and> (truthy (field options ''format'') \<and> field options ''quality'' = JUndefined \<longrightarrow>
        last (process_steps_ImageProcessor options) = ToFormat (field options ''format'') (JNum 80))
   \<and> (truthy (field options ''format'') \<and> truthy (field options ''quality'') \<longrightarrow>
        last (process_steps_ImageProcessor options)
        = ToFormat (field options ''format'') (field options ''quality''))
   \<and> (\<not> truthy (field options ''format'') \<longrightarrow>
        filter is_encode (process_steps_ImageProcessor options) = []
        \<and> filter is_encode (process_steps_part_002a options) = []
        \<and> filter is_encode (process_steps_part_002b options) = [])
   \<and> (truthy (field options ''format'') \<longrightarrow>
        last (process_steps_part_002a options)
          = ToFormat (field options ''format'') (field options ''quality'')
        \<and> last (process_steps_part_002b options)
          = ToFormat (field options ''format'') (field options ''quality''))"
proof -
  have a: "truthy (field options ''format'') \<and> field options ''quality'' = JUndefined \<longrightarrow>
        last (process_steps_ImageProcessor options) = ToFormat (field options ''format'') (JNum 80)"
    using encode_last_ImageProcessor [of options] by (auto simp: js_or_def)
  have b: "truthy (field options ''format'') \<and> truthy (field options ''quality'') \<longrightarrow>
        last (process_steps_ImageProcessor options)
        = ToFormat (field options ''format'') (field options ''quality'')"
    using encode_last_ImageProcessor [of options] by (auto simp: js_or_def)
  have c: "\<not> truthy (field options ''format'') \<longrightarrow>
        filter is_encode (process_steps_ImageProcessor options) = []
        \<and> filter is_encode (process_steps_part_002a options) = []
        \<and> filter is_encode (process_steps_part_002b options) = []"
    by (simp add: encode_steps_ImageProcessor encode_steps_part_002a encode_steps_part_002b
        step_if_False)
  from a b c encode_steps_ImageProcessor encode_last_part_002a encode_last_part_002b
  show ?thesis by blast
qed

theorem C9_encode_quality_witness:
  "last (process_steps_ImageProcessor [(''format'', JStr ''webp'')])
     = ToFormat (JStr ''webp'') (JNum 80)
   \<and> last (process_steps_ImageProcessor [(''format'', JStr ''webp''), (''quality'', JNum 75)])
     = ToFormat (JStr ''webp'') (JNum 75)
   \<and> filter is_encode (process_steps_ImageProcessor [(''width'', JNum 800)]) = []
   \<and> last (process_steps_part_002b [(''format'', JStr ''webp''), (''quality'', JNum 75)])
     = ToFormat (JStr ''webp'') (JNum 75)"
  using C9_encode_quality [of "[(''format'', JStr ''webp'')]"]
    C9_encode_quality [of "[(''format'', JStr ''webp''), (''quality'', JNum 75)]"]
    C9_encode_quality [of "[(''width'', JNum 800)]"]
  by (simp add: field_def step_if_def)

theorem C9_quality_undefined_counterexample:
  "process_steps_part_002b [(''format'', JStr ''webp'')] = [ToFormat (JStr ''webp'') JUndefined]
   \<and> process_steps_part_002b [(''format'', JStr ''webp'')] \<noteq> [ToFormat (JStr ''webp'') (JNum 80)]
   \<and> process_steps_part_002a [(''format'', JStr ''webp'')] = [ToFormat (JStr ''webp'') JUndefined]"
  by (simp add: process_steps_part_002b_def process_steps_part_002a_def
      applyProcessingOptions_def step_if_def field_def)

subsection \<open>The fingerprint builder\<close>

lemma digit_value_digit_char: "d < 10 \<Longrightarrow> digit_value (digit_char d) = d"
proof -
  assume "d < 10"
  then have "d \<in> set [0..<10]" by simp
  moreover have "list_all (\<lambda>d. digit_value (digit_char d) = d) [0..<10]"
    by code_simp
  ultimately show ?thesis unfolding list_all_iff by blast
qed

lemma read_nat_show_nat: "read_nat (show_nat n) = n"
proof (induction n rule: show_nat.induct)
  case (1 n)
  show ?case
  proof (cases "n < 10")
    case True
    then show ?thesis
      by (subst show_nat.simps) (simp add: read_nat_def digit_value_digit_char)
  next
    case False
    with 1 have ih: "read_nat (show_nat (n div 10)) = n div 10" by simp
    have "read_nat (show_nat n) = 10 * read_nat (show_nat (n div 10)) + digit_value (digit_char (n mod 10))"
      using False by (subst show_nat.simps) (simp add: read_nat_def)
    with ih show ?thesis by (simp add: digit_value_digit_char)
  qed
qed

lemma show_nat_inj: "show_nat a = show_nat b \<Longrightarrow> a = b"
  by (metis read_nat_show_nat)

lemma digit_char_not_minus: "d < 10 \<Longrightarrow> digit_char d \<noteq> CHR ''-''"
proof -
  assume "d < 10"
  then have "d \<in> set [0..<10]" by simp
  moreover have "list_all (\<lambda>d. digit_char d \<noteq> CHR ''-'') [0..<10]"
    by code_simp
  ultimately show ?thesis unfolding list_all_iff by blast
qed

lemma show_nat_no_minus: "show_nat n \<noteq> [] \<and> hd (show_nat n) \<noteq> CHR ''-''"
proof (induction n rule: show_nat.induct)
  case (1 n)
  show ?case
  proof (cases "n < 10")
    case True
    then show ?thesis by (subst (1 2) show_nat.simps) (simp add: digit_char_not_minus)
  next
    case False
    with 1 have ih: "show_nat (n div 10) \<noteq> [] \<and> hd (show_nat (n div 10)) \<noteq> CHR ''-''" by simp
    then show ?thesis using False by (subst (1 2) show_nat.simps) simp
  qed
qed

lemma show_int_inj: "show_int a = show_int b \<Longrightarrow> a = b"
proof -
  assume eq: "show_int a = show_int b"
  have neg_pos: False if "x < 0" "\<not> y < 0" "show_int x = show_int y" for x y
  proof -
    from that have "CHR ''-'' # show_nat (nat (- x)) = show_nat (nat y)" by (simp add: show_int_def)
    then have "hd (show_nat (nat y)) = CHR ''-''" by (metis list.sel(1))
    with show_nat_no_minus show False by blast
  qed
  show ?thesis
  proof (cases "a < 0")
    case True
    show ?thesis
    proof (cases "b < 0")
      case True
      with \<open>a < 0\<close> eq have "show_nat (nat (- a)) = show_nat (nat (- b))" by (simp add: show_int_def)
      then have "nat (- a) = nat (- b)" by (rule show_nat_inj)
      with True \<open>a < 0\<close> show ?thesis by simp
    next
      case False
      with \<open>a < 0\<close> eq neg_pos show ?thesis by blast
    qed
  next
    case False
    show ?thesis
    proof (cases "b < 0")
      case True
      with False eq neg_pos [of b a] show ?thesis by simp
    next
      case False
      with \<open>\<not> a < 0\<close> eq have "show_nat (nat a) = show_nat (nat b)" by (simp add: show_int_def)
      then have "nat a = nat b" by (rule show_nat_inj)
      with False \<open>\<not> a < 0\<close> show ?thesis by simp
    qed
  qed
qed

lemma serialize_JObj: "serialize (JObj ps) = ''{'' @ join '','' (members ps) @ ''}''"
  by (simp add: members_def)

lemma join_append_Cons:
  "join sep (xs @ y # ys)
   = (if xs = [] then [] else join sep xs @ sep) @ y @ (if ys = [] then [] else sep @ join sep ys)"
proof (induction sep xs rule: join.induct)
  case (1 sep)
  show ?case by (cases ys) simp_all
next
  case (2 sep x)
  show ?case by (cases ys) simp_all
next
  case (3 sep x z zs)
  then show ?case by simp
qed

lemma members_append: "members (ps @ qs) = members ps @ members qs"
  by (simp add: members_def)

lemma members_Cons:
  "v \<noteq> JUndefined \<Longrightarrow> members ((k, v) # qs) = (quote k @ '':'' @ serialize v) # members qs"
  by (simp add: members_def)

lemma serialize_field_value:
  assumes "v \<noteq> JUndefined"
  shows "serialize (JObj (ps @ (k, v) # qs))
    = (''{'' @ (if members ps = [] then [] else join '','' (members ps) @ '','') @ quote k @ '':'')
      @ serialize v
      @ ((if members qs = [] then [] else '','' @ join '','' (members qs)) @ ''}'')"
proof -
  have h: "members (ps @ (k, v) # qs) = members ps @ (quote k @ '':'' @ serialize v) # members qs"
    using assms by (simp add: members_append members_Cons)
  show ?thesis
    by (simp only: serialize_JObj h join_append_Cons append_assoc)
qed

lemma serialize_field_value_iff:
  assumes "v \<noteq> JUndefined" "w \<noteq> JUndefined"
  shows "serialize (JObj (ps @ (k, v) # qs)) = serialize (JObj (ps @ (k, w) # qs))
    \<longleftrightarrow> serialize v = serialize w"
  unfolding serialize_field_value [OF assms(1)] serialize_field_value [OF assms(2)]
  by (simp only: same_append_eq append_same_eq)

lemma serialize_defined_fields:
  "serialize (JObj (filter (\<lambda>(k, v). v \<noteq> JUndefined) ps)) = serialize (JObj ps)"
proof -
  have "members (filter (\<lambda>(k, v). v \<noteq> JUndefined) ps) = members ps"
    by (simp add: members_def)
  then show ?thesis by (simp only: serialize_JObj)
qed

lemma delimited_eq:
  "xs @ d # r = ys @ d # s \<Longrightarrow> d \<notin> set xs \<Longrightarrow> d \<notin> set ys \<Longrightarrow> xs = ys"
proof (induction xs arbitrary: ys)
  case Nil
  then show ?case by (cases ys) auto
next
  case (Cons x xs)
  then show ?case by (cases ys) auto
qed

lemma escape_plain: "plain_string s \<Longrightarrow> concat (map escape_char s) = s"
  by (induction s) (auto simp: plain_string_def escape_char_def)

lemma quote_plain: "plain_string s \<Longrightarrow> quote s = CHR 0x22 # s @ [CHR 0x22]"
  by (simp add: quote_def escape_plain)

lemma plain_no_quote: "plain_string s \<Longrightarrow> CHR 0x22 \<notin> set s"
  by (auto simp: plain_string_def list_all_iff)

lemma serialize_first_name:
  assumes "plain_string k1" "plain_string k2" "v1 \<noteq> JUndefined" "v2 \<noteq> JUndefined"
    and eq: "serialize (JObj (ps @ (k1, v1) # r1)) = serialize (JObj (ps @ (k2, v2) # r2))"
  shows "k1 = k2"
proof -
  have "quote k1 @ ('':'' @ serialize v1 @ ((if members r1 = [] then []
            else '','' @ join '','' (members r1)) @ ''}''))
      = quote k2 @ ('':'' @ serialize v2 @ ((if members r2 = [] then []
            else '','' @ join '','' (members r2)) @ ''}''))"
    using eq
    unfolding serialize_field_value [OF assms(3)] serialize_field_value [OF assms(4)]
    by (simp only: same_append_eq append_assoc)
  then have "k1 @ CHR 0x22 # ('':'' @ serialize v1 @ ((if members r1 = [] then []
            else '','' @ join '','' (members r1)) @ ''}''))
      = k2 @ CHR 0x22 # ('':'' @ serialize v2 @ ((if members r2 = [] then []
            else '','' @ join '','' (members r2)) @ ''}''))"
    by (simp only: quote_plain [OF assms(1)] quote_plain [OF assms(2)] append_Cons append_Nil
        append_assoc list.inject simp_thms)
  then show ?thesis
    by (rule delimited_eq) (simp_all add: plain_no_quote assms)
qed

lemma first_difference:
  "length xs = length ys \<Longrightarrow> xs \<noteq> ys
    \<Longrightarrow> \<exists>ps x r1 y r2. xs = ps @ x # r1 \<and> ys = ps @ y # r2 \<and> x \<noteq> y"
proof (induction xs ys rule: list_induct2)
  case Nil
  then show ?case by simp
next
  case (Cons x xs y ys)
  show ?case
  proof (cases "x = y")
    case True
    with Cons.prems have "xs \<noteq> ys" by simp
    from Cons.IH [OF this]
    obtain ps a r1 b r2 where "xs = ps @ a # r1" "ys = ps @ b # r2" "a \<noteq> b"
      by blast
    with True have "x # xs = (x # ps) @ a # r1 \<and> y # ys = (x # ps) @ b # r2 \<and> a \<noteq> b"
      by simp
    then show ?thesis by blast
  next
    case False
    then have "x # xs = [] @ x # xs \<and> y # ys = [] @ y # ys \<and> x \<noteq> y" by simp
    then show ?thesis by blast
  qed
qed

lemma serialize_field_order:
  assumes names: "list_all (\<lambda>(k, v). field_name k \<and> v \<noteq> JUndefined) o1"
    and d1: "distinct (map fst o1)" and d2: "distinct (map fst o2)"
    and same: "set o1 = set o2" and differ: "o1 \<noteq> o2"
  shows "serialize (JObj o1) \<noteq> serialize (JObj o2)"
proof
  assume eq: "serialize (JObj o1) = serialize (JObj o2)"
  from d1 d2 have "distinct o1" "distinct o2" by (simp_all add: distinct_map)
  then have "length o1 = card (set o1)" "length o2 = card (set o2)"
    by (simp_all add: distinct_card)
  with same have "length o1 = length o2" by simp
  from first_difference [OF this differ]
  obtain ps x r1 y r2 where sp: "o1 = ps @ x # r1" "o2 = ps @ y # r2" "x \<noteq> y" by blast
  obtain k1 v1 where x: "x = (k1, v1)" by (cases x)
  obtain k2 v2 where y: "y = (k2, v2)" by (cases y)
  from sp same have mem: "x \<in> set o1" "y \<in> set o1" "x \<in> set o2" "y \<in> set o2" by auto
  from names mem(1,2) x y
  have ok: "plain_string k1" "plain_string k2" "v1 \<noteq> JUndefined" "v2 \<noteq> JUndefined"
    by (auto simp: list_all_iff field_name_def)
  from eq have "k1 = k2"
    unfolding sp x y by (rule serialize_first_name [OF ok])
  with mem(3,4) x y have "(k1, v1) \<in> set o2" "(k1, v2) \<in> set o2" by simp_all
  with d2 have "v1 = v2" by (rule eq_key_imp_eq_value)
  with \<open>k1 = k2\<close> x y have "x = y" by simp
  with sp(3) show False by simp
qed

lemma getCacheKey_eq_iff:
  "getCacheKey input o1 = getCacheKey input o2 \<longleftrightarrow> serialize (JObj o1) = serialize (JObj o2)"
  by (simp add: getCacheKey_def Let_def)

lemma Input_toJSON_defined: "Input_toJSON input \<noteq> JUndefined"
  by (cases input) simp_all

lemma cacheKey_ImageProcessor_form:
  "cacheKey_ImageProcessor input opts
   = (''{'' @ (if members [(''input'', Input_toJSON input)] = [] then []
              else join '','' (members [(''input'', Input_toJSON input)]) @ '','')
        @ quote ''options'' @ '':'')
     @ serialize (JObj opts)
     @ ((if members [] = [] then [] else '','' @ join '','' (members [])) @ ''}'')"
proof -
  have d: "JObj opts \<noteq> JUndefined" by simp
  show ?thesis
    unfolding cacheKey_ImageProcessor_def
    using serialize_field_value [OF d, of "[(''input'', Input_toJSON input)]" "''options''" "[]"]
    by (simp only: append_Cons append_Nil)
qed

lemma cacheKey_ImageProcessor_eq_iff:
  "cacheKey_ImageProcessor input o1 = cacheKey_ImageProcessor input o2
    \<longleftrightarrow> serialize (JObj o1) = serialize (JObj o2)"
  unfolding cacheKey_ImageProcessor_form
  by (simp only: same_append_eq append_same_eq)

lemma replicate_zeros:
  "replicate 4 c = [c, c, c, c]" "replicate 5 c = [c, c, c, c, c]"
  by (simp_all add: numeral_eq_Suc)

lemma Number_toString_examples:
  "serialize (JNumber (Decimal False 5 0)) = ''0.5''"
  "serialize (JNumber (Decimal True 1225 2)) = ''-12.25''"
  "serialize (JNumber (Decimal False 12345678901234568 21)) = ''123456789012345680000''"
  "serialize (JNumber (Decimal False 1 22)) = ''1e+21''"
  "serialize (JNumber (Decimal False 12 22)) = ''1.2e+21''"
  "serialize (JNumber (Decimal False 1 (- 5))) = ''0.000001''"
  "serialize (JNumber (Decimal False 15 (- 6))) = ''1.5e-7''"
  by (simp_all add: Number_toString_def Let_def show_nat.simps digit_char_def
      replicate_zeros)

text \<open>
  C1 (as amended). The cache key is \<^verbatim>\<open>JSON.stringify\<close> of the option bag (after the input
  part), which prints the fields whose value is not \<^verbatim>\<open>undefined\<close>, in the order of their
  enumeration. So a field whose value is \<^verbatim>\<open>undefined\<close> does not count in the key, and the
  key is sensitive to the order of the other fields: two bags with the same fields and
  the same values (no value \<^verbatim>\<open>undefined\<close>, every name a name that needs no escaping and
  starts with no digit) that list them in different orders have different keys, for
  every input; in particular \<^verbatim>\<open>{width:800, format:'webp'}\<close> and
  \<^verbatim>\<open>{format:'webp', width:800}\<close> have different keys. Two bags that differ in the value
  of one field (neither value \<^verbatim>\<open>undefined\<close>) have different keys exactly when
  \<^verbatim>\<open>JSON.stringify\<close> prints the two values differently. It does so for two different
  integers of magnitude up to \<open>2\<^sup>5\<^sup>3\<close> (width 800 against width 801), for two different
  strings that need no escaping and for the two booleans; it prints \<^verbatim>\<open>null\<close> for \<^verbatim>\<open>NaN\<close>,
  for the two infinities and for \<^verbatim>\<open>null\<close>, and \<^verbatim>\<open>0\<close> for the two zeros.
\<close>

theorem C1_cache_key_fields:
  "getCacheKey input opts = getCacheKey input (filter (\<lambda>(k, v). v \<noteq> JUndefined) opts)
   \<and> cacheKey_ImageProcessor input opts
       = cacheKey_ImageProcessor input (filter (\<lambda>(k, v). v \<noteq> JUndefined) opts)
   \<and> (list_all (\<lambda>(k, v). field_name k \<and> v \<noteq> JUndefined) o1
        \<and> distinct (map fst o1) \<and> distinct (map fst o2) \<and> set o1 = set o2 \<and> o1 \<noteq> o2 \<longrightarrow>
        getCacheKey input o1 \<noteq> getCacheKey input o2
        \<and> cacheKey_ImageProcessor input o1 \<noteq> cacheKey_ImageProcessor input o2)
   \<and> (v \<noteq> JUndefined \<and> w \<noteq> JUndefined \<longrightarrow>
        (getCacheKey input (ps @ (k, v) # qs) = getCacheKey input (ps @ (k, w) # qs)
           \<longleftrightarrow> serialize v = serialize w)
        \<and> (cacheKey_ImageProcessor input (ps @ (k, v) # qs)
             = cacheKey_ImageProcessor input (ps @ (k, w) # qs)
           \<longleftrightarrow> serialize v = serialize w))
   \<and> (\<bar>a\<bar> \<le> 2 ^ 53 \<and> \<bar>b\<bar> \<le> 2 ^ 53 \<longrightarrow>
        (serialize (JNum a) = serialize (JNum b) \<longleftrightarrow> a = b))
   \<and> (plain_string s \<and> plain_string t \<longrightarrow>
        (serialize (JStr s) = serialize (JStr t) \<longleftrightarrow> s = t))
   \<and> (serialize (JBool x) = serialize (JBool y) \<longleftrightarrow> x = y)
   \<and> serialize (JNumber NaN) = serialize JNull
   \<and> serialize (JNumber PosInfinity) = serialize JNull
   \<and> serialize (JNumber NegInfinity) = serialize JNull
   \<and> serialize (JNumber NegZero) = serialize (JNum 0)
   \<and> getCacheKey input [(''width'', JNum 800), (''format'', JStr ''webp'')]
       \<noteq> getCacheKey input [(''format'', JStr ''webp''), (''width'', JNum 800)]
   \<and> cacheKey_ImageProcessor input [(''width'', JNum 800), (''format'', JStr ''webp'')]
       \<noteq> cacheKey_ImageProcessor input [(''format'', JStr ''webp''), (''width'', JNum 800)]
   \<and> getCacheKey input [(''width'', JNum 800)] \<noteq> getCacheKey input [(''width'', JNum 801)]
   \<and> cacheKey_ImageProcessor input [(''width'', JNum 800)]
       \<noteq> cacheKey_ImageProcessor input [(''width'', JNum 801)]"
proof -
  have undefined_fields:
    "serialize (JObj opts) = serialize (JObj (filter (\<lambda>(k, v). v \<noteq> JUndefined) opts))"
    by (simp only: serialize_defined_fields)
  have order: "serialize (JObj o1) \<noteq> serialize (JObj o2)"
    if "list_all (\<lambda>(k, v). field_name k \<and> v \<noteq> JUndefined) o1
        \<and> distinct (map fst o1) \<and> distinct (map fst o2) \<and> set o1 = set o2 \<and> o1 \<noteq> o2"
    for o1 o2
    using that serialize_field_order by blast
  have one_value: "serialize (JObj (ps @ (k, v) # qs)) = serialize (JObj (ps @ (k, w) # qs))
        \<longleftrightarrow> serialize v = serialize w"
    if "v \<noteq> JUndefined \<and> w \<noteq> JUndefined" for ps k v w qs
    using that serialize_field_value_iff by blast
  have integers: "serialize (JNum a) = serialize (JNum b) \<longleftrightarrow> a = b" for a b
    using show_int_inj by auto
  have strings: "serialize (JStr s) = serialize (JStr t) \<longleftrightarrow> s = t"
    if "plain_string s \<and> plain_string t" for s t
    using that by (auto simp: quote_plain)
  have booleans: "serialize (JBool x) = serialize (JBool y) \<longleftrightarrow> x = y" for x y
    by simp
  have printed: "serialize (JNumber NaN) = serialize JNull"
    "serialize (JNumber PosInfinity) = serialize JNull"
    "serialize (JNumber NegInfinity) = serialize JNull"
    "serialize (JNumber NegZero) = serialize (JNum 0)"
    by (simp_all add: show_int_def show_nat.simps digit_char_def)
  have ex_order: "serialize (JObj [(''width'', JNum 800), (''format'', JStr ''webp'')])
      \<noteq> serialize (JObj [(''format'', JStr ''webp''), (''width'', JNum 800)])"
    by (rule order) (auto simp: field_name_def plain_string_def)
  have ex_value: "serialize (JObj [(''width'', JNum 800)])
      \<noteq> serialize (JObj [(''width'', JNum 801)])"
    using one_value [of "JNum 800" "JNum 801" "[]" "''width''" "[]"] integers [of 800 801]
    by simp
  show ?thesis
    unfolding getCacheKey_eq_iff cacheKey_ImageProcessor_eq_iff
    using undefined_fields order [of o1 o2] one_value [of v w ps k qs] integers [of a b]
      strings [of s t] booleans [of x y] printed ex_order ex_value
    by (simp only: simp_thms) blast
qed

theorem C1_cache_key_fields_witness:
  "getCacheKey (Str ''a.png'') [(''height'', JNum 600), (''grayscale'', JBool True)]
     \<noteq> getCacheKey (Str ''a.png'') [(''grayscale'', JBool True), (''height'', JNum 600)]
   \<and> cacheKey_ImageProcessor (Str ''a.png'') [(''height'', JNum 600), (''grayscale'', JBool True)]
     \<noteq> cacheKey_ImageProcessor (Str ''a.png'') [(''grayscale'', JBool True), (''height'', JNum 600)]
   \<and> getCacheKey (Str ''a.png'') [(''blur'', JNumber (Decimal False 5 0))]
     \<noteq> getCacheKey (Str ''a.png'') [(''blur'', JNumber (Decimal False 25 0))]
   \<and> serialize (JNum 600) \<noteq> serialize (JNum 601)
   \<and> serialize (JStr ''webp'') \<noteq> serialize (JStr ''png'')"
proof -
  have plain: "plain_string ''webp'' \<and> plain_string ''png''"
    by (simp add: plain_string_def)
  have bounds: "\<bar>600 :: int\<bar> \<le> 2 ^ 53 \<and> \<bar>601 :: int\<bar> \<le> 2 ^ 53"
    by simp
  have bags: "list_all (\<lambda>(k, v). field_name k \<and> v \<noteq> JUndefined)
        [(''height'', JNum 600), (''grayscale'', JBool True)]
      \<and> distinct (map fst [(''height'', JNum 600), (''grayscale'', JBool True)])
      \<and> distinct (map fst [(''grayscale'', JBool True), (''height'', JNum 600)])
      \<and> set [(''height'', JNum 600), (''grayscale'', JBool True)]
        = set [(''grayscale'', JBool True), (''height'', JNum 600)]
      \<and> [(''height'', JNum 600), (''grayscale'', JBool True)]
        \<noteq> [(''grayscale'', JBool True), (''height'', JNum 600)]"
    by (auto simp: field_name_def plain_string_def)
  have defined: "JNumber (Decimal False 5 0) \<noteq> JUndefined
      \<and> JNumber (Decimal False 25 0) \<noteq> JUndefined"
    by simp
  have printed: "serialize (JNumber (Decimal False 5 0)) \<noteq> serialize (JNumber (Decimal False 25 0))"
    by (simp add: Number_toString_def Let_def show_nat.simps digit_char_def)
  note inst = C1_cache_key_fields [where input = "Str ''a.png''"
      and ?o1.0 = "[(''height'', JNum 600), (''grayscale'', JBool True)]"
      and ?o2.0 = "[(''grayscale'', JBool True), (''height'', JNum 600)]"
      and v = "JNumber (Decimal False 5 0)" and w = "JNumber (Decimal False 25 0)"
      and ps = "[]" and qs = "[]" and k = "''blur''" and a = 600 and b = 601
      and s = "''webp''" and t = "''png''"]
  from inst [THEN conjunct2, THEN conjunct2, THEN conjunct1, THEN mp, OF bags]
    inst [THEN conjunct2, THEN conjunct2, THEN conjunct2, THEN conjunct1, THEN mp, OF defined,
      THEN conjunct1]
    inst [THEN conjunct2, THEN conjunct2, THEN conjunct2, THEN conjunct2, THEN conjunct1,
      THEN mp, OF bounds]
    inst [THEN conjunct2, THEN conjunct2, THEN conjunct2, THEN conjunct2, THEN conjunct2,
      THEN conjunct1, THEN mp, OF plain] printed
  show ?thesis by simp
qed

theorem C1_field_order_counterexample:
  "getCacheKey (Buffer [1, 2, 3]) [(''width'', JNum 800), (''format'', JStr ''webp'')]
     = ''AQID-{\"width\":800,\"format\":\"webp\"}''
   \<and> getCacheKey (Buffer [1, 2, 3]) [(''format'', JStr ''webp''), (''width'', JNum 800)]
     = ''AQID-{\"format\":\"webp\",\"width\":800}''
   \<and> getCacheKey (Buffer [1, 2, 3]) [(''width'', JNum 800), (''format'', JStr ''webp'')]
     \<noteq> getCacheKey (Buffer [1, 2, 3]) [(''format'', JStr ''webp''), (''width'', JNum 800)]
   \<and> cacheKey_ImageProcessor (Buffer [1, 2, 3]) [(''width'', JNum 800), (''format'', JStr ''webp'')]
     = ''{\"input\":{\"type\":\"Buffer\",\"data\":[1,2,3]},\"options\":{\"width\":800,\"format\":\"webp\"}}''
   \<and> cacheKey_ImageProcessor (Buffer [1, 2, 3]) [(''format'', JStr ''webp''), (''width'', JNum 800)]
     = ''{\"input\":{\"type\":\"Buffer\",\"data\":[1,2,3]},\"options\":{\"format\":\"webp\",\"width\":800}}''
   \<and> JNumber NaN \<noteq> JNumber PosInfinity
   \<and> getCacheKey (Buffer [1, 2, 3]) [(''blur'', JNumber NaN)] = ''AQID-{\"blur\":null}''
   \<and> getCacheKey (Buffer [1, 2, 3]) [(''blur'', JNumber PosInfinity)] = ''AQID-{\"blur\":null}''
   \<and> cacheKey_ImageProcessor (Buffer [1, 2, 3]) [(''blur'', JNumber NaN)]
     = cacheKey_ImageProcessor (Buffer [1, 2, 3]) [(''blur'', JNumber PosInfinity)]"
  by (simp add: getCacheKey_def cacheKey_ImageProcessor_def b64_def base64_alphabet_def
      quote_def escape_char_def show_int_def show_nat.simps digit_char_def)

subsection \<open>Input validation\<close>

lemma strip_Nil: "strip ws [] = []"
proof -
  have "leading ws [] = None"
    by (auto simp: leading_def find_None_iff)
  then show ?thesis by (subst strip.simps) simp
qed

lemma white_space_tokens: "list_all (\<lambda>w. w \<noteq> [] \<and> length w = token_length (hd w)) white_space"
  by (simp add: white_space_def token_length_def)

lemma white_space_prefix_free:
  assumes "w \<in> set white_space" "t \<in> set white_space" "take (length w) (t @ r) = w"
  shows "w = t"
proof -
  from assms(1,2) white_space_tokens
  have w: "w \<noteq> []" "length w = token_length (hd w)" and t: "t \<noteq> []" "length t = token_length (hd t)"
    by (auto simp: list_all_iff)
  from assms(3) w(1) t(1) have "hd w = hd t"
    by (cases w; cases t) auto
  with w t have "length w = length t" by simp
  with assms(3) show ?thesis by simp
qed

lemma find_Some_mem: "find P xs = Some x \<Longrightarrow> x \<in> set xs \<and> P x"
  by (induction xs) (auto split: if_splits)

lemma leading_white_space:
  assumes "t \<in> set white_space"
  shows "leading white_space (t @ r) = Some t"
proof -
  from assms white_space_tokens have ne: "t \<noteq> []" by (simp add: list_all_iff)
  have tk: "take (length t) (t @ r) = t" by simp
  have "leading white_space (t @ r) \<noteq> None"
  proof
    assume "leading white_space (t @ r) = None"
    then have "\<not> (t \<noteq> [] \<and> take (length t) (t @ r) = t)"
      unfolding leading_def find_None_iff using assms by blast
    with ne tk show False by blast
  qed
  then obtain w where l: "leading white_space (t @ r) = Some w" by auto
  from find_Some_mem [OF l [unfolded leading_def]]
  have w: "w \<in> set white_space" "take (length w) (t @ r) = w"
    by blast+
  have "w = t" by (rule white_space_prefix_free [OF w(1) assms w(2)])
  with l show ?thesis by simp
qed

lemma strip_white_space_concat:
  "list_all (\<lambda>t. t \<in> set white_space) ts \<Longrightarrow> strip white_space (concat ts) = []"
proof (induction ts)
  case Nil
  then show ?case by (simp add: strip_Nil)
next
  case (Cons t ts)
  then have "leading white_space (t @ concat ts) = Some t" by (simp add: leading_white_space)
  then have "strip white_space (concat (t # ts)) = strip white_space (concat ts)"
    by (subst strip.simps) simp
  with Cons show ?case by simp
qed

lemma trim_blank: "strip white_space s = [] \<Longrightarrow> trim s = []"
  by (simp add: trim_def strip_Nil)

lemma trim_white_space: "list_all (\<lambda>t. t \<in> set white_space) ts \<Longrightarrow> trim (concat ts) = []"
  by (simp add: trim_blank strip_white_space_concat)


lemma leading_Some:
  assumes "leading ws s = Some w"
  shows "w \<in> set ws" "w \<noteq> []" "s = w @ drop (length w) s"
proof -
  from find_Some_mem [OF assms [unfolded leading_def]]
  have w: "w \<in> set ws" "w \<noteq> []" "take (length w) s = w" by blast+
  from w(3) have "take (length w) s @ drop (length w) s = w @ drop (length w) s" by simp
  then have "s = w @ drop (length w) s" by simp
  with w show "w \<in> set ws" "w \<noteq> []" "s = w @ drop (length w) s" by blast+
qed

lemma strip_tokens: "\<exists>ts. list_all (\<lambda>t. t \<in> set ws) ts \<and> s = concat ts @ strip ws s"
proof (induction ws s rule: strip.induct)
  case (1 ws s)
  show ?case
  proof (cases "leading ws s")
    case None
    then have "strip ws s = s" by (subst strip.simps) simp
    then show ?thesis by (intro exI [of _ "[]"]) simp
  next
    case (Some w)
    with 1 obtain ts where ts: "list_all (\<lambda>t. t \<in> set ws) ts"
      "drop (length w) s = concat ts @ strip ws (drop (length w) s)" by blast
    from Some have w: "w \<in> set ws" "s = w @ drop (length w) s"
      by (rule leading_Some)+
    from Some have st: "strip ws s = strip ws (drop (length w) s)"
      by (subst strip.simps) simp
    from w(2) ts(2) have "s = concat (w # ts) @ strip ws s"
      unfolding st by simp
    moreover from w(1) ts(1) have "list_all (\<lambda>t. t \<in> set ws) (w # ts)" by simp
    ultimately show ?thesis by blast
  qed
qed

lemma leading_strip: "leading ws (strip ws s) = None"
proof (induction ws s rule: strip.induct)
  case (1 ws s)
  show ?case
  proof (cases "leading ws s")
    case None
    then have "strip ws s = s" by (subst strip.simps) simp
    with None show ?thesis by simp
  next
    case (Some w)
    then have "strip ws s = strip ws (drop (length w) s)"
      by (subst strip.simps) simp
    with 1 Some show ?thesis by simp
  qed
qed

lemma white_space_concat_strip:
  assumes "list_all (\<lambda>t. t \<in> set white_space) us" "strip white_space s = concat us"
  shows "strip white_space s = []"
proof (cases us)
  case Nil
  with assms(2) show ?thesis by simp
next
  case (Cons t us')
  with assms(1) have "t \<in> set white_space" by simp
  then have "leading white_space (t @ concat us') = Some t" by (rule leading_white_space)
  with assms(2) Cons have "leading white_space (strip white_space s) = Some t" by simp
  with leading_strip [of white_space s] show ?thesis by simp
qed

lemma trim_empty_tokens:
  assumes "trim s = []"
  shows "\<exists>ts. list_all (\<lambda>t. t \<in> set white_space) ts \<and> s = concat ts"
proof -
  from assms have e: "strip (map rev white_space) (rev (strip white_space s)) = []"
    by (simp add: trim_def)
  from strip_tokens [of "map rev white_space" "rev (strip white_space s)"]
  obtain ts where ts: "list_all (\<lambda>t. t \<in> set (map rev white_space)) ts"
    "rev (strip white_space s) = concat ts" unfolding e by auto
  from ts(2) have "rev (rev (strip white_space s)) = rev (concat ts)" by simp
  then have u: "strip white_space s = concat (map rev (rev ts))"
    by (simp add: rev_concat)
  from ts(1) have "list_all (\<lambda>t. t \<in> set white_space) (map rev (rev ts))"
    by (auto simp: list_all_iff)
  with u have "strip white_space s = []" by (intro white_space_concat_strip)
  with strip_tokens [of white_space s] show ?thesis by simp
qed

lemma trim_empty_iff:
  "trim s = [] \<longleftrightarrow> (\<exists>ts. list_all (\<lambda>t. t \<in> set white_space) ts \<and> s = concat ts)"
  using trim_empty_tokens trim_white_space by blast

text \<open>
  C8 (as amended). In the first file of unnamed/part\_002, \<^verbatim>\<open>process\<close> on an empty buffer
  or on a blank string makes no request to the engine and leaves the cache as it is; it
  fails with the \<^verbatim>\<open>ImageProcessingError\<close> \<open>Failed to process image\<close>, whose operation is
  \<^verbatim>\<open>'process image'\<close> and whose original error is the validation error
  (\<open>Empty buffer provided\<close> or \<open>Empty string provided\<close>). A string is blank when
  \<^verbatim>\<open>String.prototype.trim\<close> leaves nothing of it, which is the case exactly when it is made
  of white space and line terminator characters only (the empty string is one).
  \<^verbatim>\<open>process\<close> of ImageProcessor.ts does not validate: on a cache miss it hands the empty
  buffer to the engine, and an engine failure is reported with the operation
  \<^verbatim>\<open>'process'\<close>.
\<close>

theorem C8_validation_before_engine:
  fixes engine :: "'r engine" and c :: "'r ImageCache"
  shows "process_part_002a engine clk (Buffer []) options c =
      \<lparr>outcome = Inl (ImageProcessingError ''Failed to process image''
                   (Some (ImageProcessingError ''Empty buffer provided'' None None))
                   (Some ''process image'')),
       engine_calls = [], cache_after = c\<rparr>
   \<and> (trim s = [] \<longrightarrow>
        process_part_002a engine clk (Str s) options c =
          \<lparr>outcome = Inl (ImageProcessingError ''Failed to process image''
                   (Some (ImageProcessingError ''Empty string provided'' None None))
                   (Some ''process image'')),
           engine_calls = [], cache_after = c\<rparr>)
   \<and> (trim s = [] \<longleftrightarrow> (\<exists>ts. list_all (\<lambda>t. t \<in> set white_space) ts \<and> s = concat ts))
   \<and> (fst (ImageCache_get (t_get clk) (cacheKey_ImageProcessor (Buffer []) options) c) = None \<longrightarrow>
        engine_calls (process_ImageProcessor engine clk (Buffer []) options c)
          = [(Buffer [], process_steps_ImageProcessor options)]
        \<and> (engine (Buffer []) (process_steps_ImageProcessor options) = Inl e \<longrightarrow>
             outcome (process_ImageProcessor engine clk (Buffer []) options c)
               = Inl (ImageProcessingError ''Failed to process image'' (Some e) (Some ''process''))))"
proof -
  have buf: "process_part_002a engine clk (Buffer []) options c =
      \<lparr>outcome = Inl (ImageProcessingError ''Failed to process image''
                   (Some (ImageProcessingError ''Empty buffer provided'' None None))
                   (Some ''process image'')),
       engine_calls = [], cache_after = c\<rparr>"
    by (simp add: process_part_002a_def process_body_part_002a_def validateInput_def
        safeExecute_def)
  have str: "process_part_002a engine clk (Str s) options c =
          \<lparr>outcome = Inl (ImageProcessingError ''Failed to process image''
                   (Some (ImageProcessingError ''Empty string provided'' None None))
                   (Some ''process image'')),
           engine_calls = [], cache_after = c\<rparr>" if "trim s = []"
    using that
    by (simp add: process_part_002a_def process_body_part_002a_def validateInput_def
        safeExecute_def)
  have ip: "engine_calls (process_ImageProcessor engine clk (Buffer []) options c)
          = [(Buffer [], process_steps_ImageProcessor options)]
        \<and> (engine (Buffer []) (process_steps_ImageProcessor options) = Inl e \<longrightarrow>
             outcome (process_ImageProcessor engine clk (Buffer []) options c)
               = Inl (ImageProcessingError ''Failed to process image'' (Some e) (Some ''process'')))"
    if "fst (ImageCache_get (t_get clk) (cacheKey_ImageProcessor (Buffer []) options) c) = None"
    using that
    by (auto simp: process_ImageProcessor_def process_begin_ImageProcessor_def
        process_end_ImageProcessor_def engine_outcome_ImageProcessor_def Let_def split: prod.splits option.splits sum.splits)
  from buf str ip trim_empty_iff [of s] show ?thesis by blast
qed

theorem C8_validation_before_engine_witness:
  "process_part_002a (\<lambda>i st. Inr (0::nat)) \<lparr>t_get = 5, t_scan = 6, t_set = 7\<rparr>
      (Str [CHR 0x20, CHR 0xC2, CHR 0xA0, CHR 0x09])
      [(''width'', JNum 800)] default_ImageCache =
      \<lparr>outcome = Inl (ImageProcessingError ''Failed to process image''
                   (Some (ImageProcessingError ''Empty string provided'' None None))
                   (Some ''process image'')),
       engine_calls = [], cache_after = default_ImageCache\<rparr>
   \<and> engine_calls (process_ImageProcessor (\<lambda>i st. Inl (EngineError ''Input Buffer is empty''))
        \<lparr>t_get = 5, t_scan = 6, t_set = 7\<rparr> (Buffer []) [] (default_ImageCache :: nat ImageCache))
      = [(Buffer [], [])]
   \<and> outcome (process_ImageProcessor (\<lambda>i st. Inl (EngineError ''Input Buffer is empty''))
        \<lparr>t_get = 5, t_scan = 6, t_set = 7\<rparr> (Buffer []) [] (default_ImageCache :: nat ImageCache))
      = Inl (ImageProcessingError ''Failed to process image''
               (Some (EngineError ''Input Buffer is empty'')) (Some ''process''))"
proof -
  have blank: "trim [CHR 0x20, CHR 0xC2, CHR 0xA0, CHR 0x09] = []"
    by (simp add: trim_def strip.simps leading_def white_space_def)
  have miss: "fst (ImageCache_get (t_get \<lparr>t_get = 5, t_scan = 6, t_set = 7\<rparr>)
      (cacheKey_ImageProcessor (Buffer []) []) (default_ImageCache :: nat ImageCache)) = None"
    by (simp add: ImageCache_get_def default_ImageCache_def new_ImageCache_def)
  have fails: "(\<lambda>i st. Inl (EngineError ''Input Buffer is empty'') :: Error + nat) (Buffer [])
      (process_steps_ImageProcessor []) = Inl (EngineError ''Input Buffer is empty'')"
    by simp
  note string = C8_validation_before_engine [where engine = "\<lambda>i st. Inr (0::nat)"
      and clk = "\<lparr>t_get = 5, t_scan = 6, t_set = 7\<rparr>"
      and s = "[CHR 0x20, CHR 0xC2, CHR 0xA0, CHR 0x09]"
      and options = "[(''width'', JNum 800)]" and c = default_ImageCache,
      THEN conjunct2, THEN conjunct1, THEN mp, OF blank]
  note buffer = C8_validation_before_engine
      [where engine = "\<lambda>i st. Inl (EngineError ''Input Buffer is empty'')"
      and clk = "\<lparr>t_get = 5, t_scan = 6, t_set = 7\<rparr>" and options = "[]"
      and c = "default_ImageCache :: nat ImageCache"
      and e = "EngineError ''Input Buffer is empty''",
      THEN conjunct2, THEN conjunct2, THEN conjunct2, THEN mp, OF miss]
  from buffer have calls: "engine_calls (process_ImageProcessor
        (\<lambda>i st. Inl (EngineError ''Input Buffer is empty''))
        \<lparr>t_get = 5, t_scan = 6, t_set = 7\<rparr> (Buffer []) [] (default_ImageCache :: nat ImageCache))
      = [(Buffer [], [])]"
    by (simp add: process_steps_ImageProcessor_def step_if_def field_def)
  from buffer [THEN conjunct2, THEN mp, OF fails] string calls show ?thesis
    by simp
qed

theorem C8_operation_tag_counterexample:
  "operation (projl (outcome (process_part_002a (\<lambda>i st. Inr (0::nat))
        \<lparr>t_get = 5, t_scan = 6, t_set = 7\<rparr> (Buffer []) [] default_ImageCache)))
     = Some ''process image''
   \<and> operation (projl (outcome (process_part_002a (\<lambda>i st. Inr (0::nat))
        \<lparr>t_get = 5, t_scan = 6, t_set = 7\<rparr> (Buffer []) [] default_ImageCache)))
     \<noteq> Some ''process''
   \<and> engine_calls (process_ImageProcessor (\<lambda>i st. Inl (EngineError ''Input Buffer is empty''))
        \<lparr>t_get = 5, t_scan = 6, t_set = 7\<rparr> (Buffer []) [] (default_ImageCache :: nat ImageCache))
     = [(Buffer [], [])]"
  by (simp add: process_part_002a_def process_body_part_002a_def validateInput_def
      safeExecute_def process_ImageProcessor_def process_begin_ImageProcessor_def
      process_end_ImageProcessor_def engine_outcome_ImageProcessor_def ImageCache_get_def
      default_ImageCache_def
      new_ImageCache_def process_steps_ImageProcessor_def step_if_def field_def)

subsection \<open>Batches\<close>













































subsection \<open>The map operations\<close>

lemma Map_get_Map_set_same: "Map_get (Map_set k v m) k = Some v"
  by (induction m) auto

lemma Map_get_Map_set_other: "k' \<noteq> k \<Longrightarrow> Map_get (Map_set k v m) k' = Map_get m k'"
  by (induction m) auto

lemma Map_get_Map_delete_same: "Map_get (Map_delete k m) k = None"
  by (induction m) auto

lemma Map_get_Map_delete_other: "k' \<noteq> k \<Longrightarrow> Map_get (Map_delete k m) k' = Map_get m k'"
  by (induction m) auto

lemma keys_Map_delete: "fst ` set (Map_delete k m) = fst ` set m - {k}"
  by (induction m) force+

lemma keys_Map_set: "fst ` set (Map_set k v m) = insert k (fst ` set m)"
  by (induction m) force+

lemma length_Map_set_new: "k \<notin> fst ` set m \<Longrightarrow> length (Map_set k v m) = Suc (length m)"
  by (induction m) auto

lemma cache_set_fields:
  "maxSize (ImageCache_set ts t k v c) = maxSize c" "maxAge (ImageCache_set ts t k v c) = maxAge c"
  by (simp_all add: ImageCache_set_def ImageCache_removeOldestEntry_def Let_def split: option.splits)

lemma cache_set_lookup:
  "Map_get (cache (ImageCache_set ts t k v c)) k = Some \<lparr>timestamp = t, result = v\<rparr>"
  by (simp add: ImageCache_set_def Let_def Map_get_Map_set_same)

subsection \<open>TTL expiry\<close>

text \<open>
  C3. An entry stored by \<^verbatim>\<open>set\<close> at time \<open>t0\<close> carries the timestamp \<open>t0\<close>. While the
  entry is in the store, a \<^verbatim>\<open>get\<close> of its key at a time strictly later than
  \<open>t0 + maxAge\<close> is a miss and deletes the key; a \<^verbatim>\<open>get\<close> at or before \<open>t0 + maxAge\<close>
  returns the stored result and leaves the store as it is. Expiry is checked nowhere
  else: a \<^verbatim>\<open>get\<close> of another key leaves the entry in place however old it is, and so
  does a \<^verbatim>\<open>set\<close> of another key below capacity.
\<close>

theorem C3_ttl_lazy_expiry:
  fixes c :: "'r ImageCache"
  shows "Map_get (cache (ImageCache_set ts tz k r cz)) k = Some \<lparr>timestamp = tz, result = r\<rparr>
    \<and> maxAge (ImageCache_set ts tz k r cz) = maxAge cz
    \<and> (Map_get (cache c) k = Some \<lparr>timestamp = tz, result = r\<rparr> \<longrightarrow>
         (tz + maxAge c < now \<longrightarrow>
            fst (ImageCache_get now k c) = None
            \<and> Map_get (cache (snd (ImageCache_get now k c))) k = None
            \<and> k \<notin> fst ` set (cache (snd (ImageCache_get now k c))))
       \<and> (now \<le> tz + maxAge c \<longrightarrow> ImageCache_get now k c = (Some r, c))
       \<and> (kk \<noteq> k \<longrightarrow>
            Map_get (cache (snd (ImageCache_get now kk c))) k = Some \<lparr>timestamp = tz, result = r\<rparr>)
       \<and> (kk \<noteq> k \<and> int (length (cache c)) < maxSize c \<longrightarrow>
            Map_get (cache (ImageCache_set tss tt kk rr c)) k = Some \<lparr>timestamp = tz, result = r\<rparr>))"
proof -
  have stored: "Map_get (cache (ImageCache_set ts tz k r cz)) k = Some \<lparr>timestamp = tz, result = r\<rparr>"
    by (rule cache_set_lookup)
  have age: "maxAge (ImageCache_set ts tz k r cz) = maxAge cz"
    by (rule cache_set_fields)
  have rest: "(tz + maxAge c < now \<longrightarrow>
            fst (ImageCache_get now k c) = None
            \<and> Map_get (cache (snd (ImageCache_get now k c))) k = None
            \<and> k \<notin> fst ` set (cache (snd (ImageCache_get now k c))))
       \<and> (now \<le> tz + maxAge c \<longrightarrow> ImageCache_get now k c = (Some r, c))
       \<and> (kk \<noteq> k \<longrightarrow>
            Map_get (cache (snd (ImageCache_get now kk c))) k = Some \<lparr>timestamp = tz, result = r\<rparr>)
       \<and> (kk \<noteq> k \<and> int (length (cache c)) < maxSize c \<longrightarrow>
            Map_get (cache (ImageCache_set tss tt kk rr c)) k = Some \<lparr>timestamp = tz, result = r\<rparr>)"
    if present: "Map_get (cache c) k = Some \<lparr>timestamp = tz, result = r\<rparr>"
  proof (intro conjI impI)
    assume late: "tz + maxAge c < now"
    then have g: "ImageCache_get now k c = (None, c\<lparr>cache := Map_delete k (cache c)\<rparr>)"
      using present by (simp add: ImageCache_get_def)
    show "fst (ImageCache_get now k c) = None" by (simp add: g)
    show "Map_get (cache (snd (ImageCache_get now k c))) k = None"
      by (simp add: g Map_get_Map_delete_same)
    show "k \<notin> fst ` set (cache (snd (ImageCache_get now k c)))"
      by (simp add: g keys_Map_delete)
  next
    assume "now \<le> tz + maxAge c"
    then show "ImageCache_get now k c = (Some r, c)"
      using present by (simp add: ImageCache_get_def)
  next
    assume "kk \<noteq> k"
    then show "Map_get (cache (snd (ImageCache_get now kk c))) k = Some \<lparr>timestamp = tz, result = r\<rparr>"
      using present
      by (auto simp: ImageCache_get_def Map_get_Map_delete_other split: option.splits)
  next
    assume a: "kk \<noteq> k \<and> int (length (cache c)) < maxSize c"
    then have "k \<noteq> kk" by blast
    then have "Map_get (Map_set kk \<lparr>timestamp = tt, result = rr\<rparr> (cache c)) k = Map_get (cache c) k"
      by (rule Map_get_Map_set_other)
    then show "Map_get (cache (ImageCache_set tss tt kk rr c)) k = Some \<lparr>timestamp = tz, result = r\<rparr>"
      using present a by (simp add: ImageCache_set_def)
  qed
  from stored age rest show ?thesis by blast
qed

theorem C3_ttl_lazy_expiry_witness:
  "fst (ImageCache_get 3601001 ''k'' (ImageCache_set 0 1000 ''k'' (7::nat) default_ImageCache)) = None
   \<and> ''k'' \<notin> fst ` set (cache (snd (ImageCache_get 3601001 ''k''
         (ImageCache_set 0 1000 ''k'' (7::nat) default_ImageCache))))
   \<and> ImageCache_get 3601000 ''k'' (ImageCache_set 0 1000 ''k'' (7::nat) default_ImageCache)
       = (Some 7, ImageCache_set 0 1000 ''k'' (7::nat) default_ImageCache)
   \<and> Map_get (cache (snd (ImageCache_get 9999999 ''j''
         (ImageCache_set 0 1000 ''k'' (7::nat) default_ImageCache)))) ''k''
       = Some \<lparr>timestamp = 1000, result = 7\<rparr>
   \<and> Map_get (cache (ImageCache_set 9999999 9999999 ''j'' 8
         (ImageCache_set 0 1000 ''k'' (7::nat) default_ImageCache))) ''k''
       = Some \<lparr>timestamp = 1000, result = 7\<rparr>"
  using C3_ttl_lazy_expiry [where c = "ImageCache_set 0 1000 ''k'' (7::nat) default_ImageCache"
      and k = "''k''" and tz = 1000 and r = 7 and now = 3601001]
    C3_ttl_lazy_expiry [where c = "ImageCache_set 0 1000 ''k'' (7::nat) default_ImageCache"
      and k = "''k''" and tz = 1000 and r = 7 and now = 3601000]
    C3_ttl_lazy_expiry [where c = "ImageCache_set 0 1000 ''k'' (7::nat) default_ImageCache"
      and k = "''k''" and tz = 1000 and r = 7 and now = 9999999 and kk = "''j''"
      and tss = 9999999 and tt = 9999999 and rr = 8]
  by (simp add: ImageCache_set_def default_ImageCache_def new_ImageCache_def)

subsection \<open>Capacity eviction\<close>

text \<open>
  When every entry is older than the clock reading of the scan and no key is the empty
  string, \<^verbatim>\<open>removeOldestEntry\<close> removes exactly one entry, one with the smallest
  timestamp.
\<close>

lemma oldest_scan_spec:
  "oldest_scan es (ok, ot) = (rk, rt) \<Longrightarrow>
     rt \<le> ot \<and> (\<forall>(k, e)\<in>set es. rt \<le> timestamp e)
     \<and> ((rk, rt) = (ok, ot) \<or> (\<exists>k e. rk = Some k \<and> (k, e) \<in> set es \<and> timestamp e = rt \<and> rt < ot))"
proof (induction es arbitrary: ok ot)
  case Nil
  then show ?case by simp
next
  case (Cons x es)
  obtain key entry where x: "x = (key, entry)" by (cases x)
  show ?case
  proof (cases "timestamp entry < ot")
    case True
    with Cons.prems x have "oldest_scan es (Some key, timestamp entry) = (rk, rt)" by simp
    from Cons.IH [OF this] True x show ?thesis by fastforce
  next
    case False
    with Cons.prems x have "oldest_scan es (ok, ot) = (rk, rt)" by simp
    from Cons.IH [OF this] False x show ?thesis by fastforce
  qed
qed

lemma length_Map_delete:
  "distinct (map fst m) \<Longrightarrow> k \<in> fst ` set m \<Longrightarrow> Suc (length (Map_delete k m)) = length m"
proof (induction m)
  case Nil
  then show ?case by simp
next
  case (Cons x m)
  obtain k' v' where x: "x = (k', v')" by (cases x)
  show ?case
  proof (cases "k' = k")
    case True
    with Cons.prems x have "k \<notin> fst ` set m" by simp
    then have "Map_delete k m = m" by (induction m) auto
    with True x show ?thesis by simp
  next
    case False
    with Cons x show ?thesis by auto
  qed
qed

lemma eviction_of_an_older_entry:
  assumes d: "distinct (map fst (cache c))" and ne: "cache c \<noteq> []"
    and old: "\<forall>(k, e)\<in>set (cache c). k \<noteq> [] \<and> timestamp e < now"
  shows "\<exists>k e. (k, e) \<in> set (cache c)
      \<and> (\<forall>(k', e')\<in>set (cache c). timestamp e \<le> timestamp e')
      \<and> cache (ImageCache_removeOldestEntry now c) = Map_delete k (cache c)
      \<and> Suc (length (cache (ImageCache_removeOldestEntry now c))) = length (cache c)
      \<and> Map_get (cache (ImageCache_removeOldestEntry now c)) k = None"
proof -
  obtain rk rt where r: "oldest_scan (cache c) (None, now) = (rk, rt)"
    by (cases "oldest_scan (cache c) (None, now)")
  from oldest_scan_spec [OF r]
  have min: "\<forall>(k, e)\<in>set (cache c). rt \<le> timestamp e"
    and alt: "(rk, rt) = (None, now) \<or> (\<exists>k e. rk = Some k \<and> (k, e) \<in> set (cache c) \<and> timestamp e = rt \<and> rt < now)"
    by blast+
  from ne obtain k0 e0 where m0: "(k0, e0) \<in> set (cache c)" by (cases "cache c") auto
  with old min have "rt < now" by fastforce
  with alt obtain k e where k: "rk = Some k" "(k, e) \<in> set (cache c)" "timestamp e = rt" by auto
  from k(2) old have "k \<noteq> []" by auto
  with r k(1) have del: "cache (ImageCache_removeOldestEntry now c) = Map_delete k (cache c)"
    by (simp add: ImageCache_removeOldestEntry_def)
  from k(2) have "k \<in> fst ` set (cache c)" by force
  with d have "Suc (length (Map_delete k (cache c))) = length (cache c)" by (rule length_Map_delete)
  moreover have "\<forall>(k', e')\<in>set (cache c). timestamp e \<le> timestamp e'"
    using min k(3) by simp
  moreover have "Map_get (cache (ImageCache_removeOldestEntry now c)) k = None"
    by (simp add: del Map_get_Map_delete_same)
  ultimately show ?thesis using del k(2) by (intro exI [of _ k] exI [of _ e]) simp
qed

text \<open>
  C2. \<^verbatim>\<open>removeOldestEntry\<close> starts its scan with \<^verbatim>\<open>oldestTime = Date.now()\<close> and keeps an
  entry only when its timestamp is strictly smaller. Three \<^verbatim>\<open>set\<close> calls with distinct
  keys inside one millisecond, on a cache of maximum size 2: the third call finds size
  2, scans, finds no entry older than the current time, removes nothing, and the cache
  holds 3 entries.
\<close>

theorem C2_same_millisecond_no_eviction:
  "map fst (cache (ImageCache_set 1000 1000 ''c'' (3::nat)
       (ImageCache_set 1000 1000 ''b'' 2
         (ImageCache_set 1000 1000 ''a'' 1 (new_ImageCache 2 3600000)))))
     = [''a'', ''b'', ''c'']
   \<and> length (cache (ImageCache_set 1000 1000 ''c'' (3::nat)
       (ImageCache_set 1000 1000 ''b'' 2
         (ImageCache_set 1000 1000 ''a'' 1 (new_ImageCache 2 3600000))))) = 3"
  by (simp add: ImageCache_set_def ImageCache_removeOldestEntry_def new_ImageCache_def)

end
